theory Spec2Isabelle
  imports Complex_Main
begin

text \<open>
  The configuration managers of qtrlb: \<open>ProcessManager\<close> (\<open>process_manager.py\<close>), which checks
  the shapes of the readout matrices, builds the heralding mask and routes a measurement
  batch through one of four processing routines, and \<open>VariableManager\<close>
  (\<open>variable_manager.py\<close>), which derives the per-qubit and per-resonator entries on load.
  Python objects that the methods mutate are passed through as explicit state, exceptions
  are values of a sum type, and helpers whose bodies lie outside these two files are
  parameters.
\<close>

unbundle bit_operations_syntax

section \<open>Python exceptions\<close>

text \<open>
  Every exception that the modelled code can raise is a value. \<open>ExternalError\<close> tags an
  exception raised inside a helper whose body is outside the modelled files
  (\<open>rotate_IQ\<close>, \<open>gmm_predict\<close>, \<open>normalize_population\<close>, \<open>autorotate_IQ\<close>) or
  inside numpy.
\<close>

datatype error =
    TypeError
  | AttributeError
  | KeyError
  | IndexError
  | ValueError
  | LinAlgError
  | AssertionError
  | ExternalError string

definition bind_err :: "error + 'a \<Rightarrow> ('a \<Rightarrow> error + 'b) \<Rightarrow> error + 'b" where
  "bind_err r f = (case r of Inl e \<Rightarrow> Inl e | Inr v \<Rightarrow> f v)"

section \<open>Integer arrays of shape (repetitions, sweep points)\<close>

text \<open>
  A two-dimensional integer \<open>ndarray\<close>: \<open>shape = (length (rows a), n_cols a)\<close>. The column
  count is kept apart from the rows so that the shapes \<open>(0, P)\<close> and \<open>(R, 0)\<close> are both
  representable. \<open>wf_array\<close> says that every row has \<open>n_cols\<close> entries. The entries are
  labels of a signed integer type, so that \<open>-1\<close> can be stored; overflow plays no role.
\<close>

record ndarray =
  n_cols :: nat
  rows :: "int list list"

definition wf_array :: "ndarray \<Rightarrow> bool" where
  "wf_array a = list_all (\<lambda>row. length row = n_cols a) (rows a)"

definition column :: "ndarray \<Rightarrow> nat \<Rightarrow> int list" where
  \<comment> \<open>\<open>a[:, i]\<close>\<close>
  "column a i = map (\<lambda>row. row ! i) (rows a)"

definition count_zero :: "int list \<Rightarrow> nat" where
  \<comment> \<open>\<open>np.sum(v == 0)\<close>\<close>
  "count_zero v = length (filter (\<lambda>x. x = 0) v)"

definition overwrite :: "nat \<Rightarrow> nat \<Rightarrow> 'a \<Rightarrow> 'a list \<Rightarrow> 'a list" where
  \<comment> \<open>\<open>v[j:k] = x\<close> on a one-dimensional view; a slice that runs past the end is clipped\<close>
  "overwrite j k x v = map (\<lambda>(n, y). if j \<le> n \<and> n < k then x else y) (enumerate 0 v)"

definition assign_slice :: "ndarray \<Rightarrow> nat \<Rightarrow> nat \<Rightarrow> nat \<Rightarrow> int \<Rightarrow> ndarray" where
  \<comment> \<open>\<open>a[j:k, i] = x\<close>\<close>
  "assign_slice a j k i x =
     a\<lparr>rows := map (\<lambda>(n, row). if j \<le> n \<and> n < k then row[i := x] else row)
                   (enumerate 0 (rows a))\<rparr>"

subsection \<open>The truncation step of \<open>heralding_test\<close>\<close>

text \<open>
  The inner \<open>while\<close> loop of \<open>heralding_test\<close> for sweep point \<open>i\<close>; \<open>j\<close> is the loop
  variable of the source. The loop has no bound in the source, so the model is a partial
  function: \<open>None\<close> stands for a loop that never ends.
  \<^verbatim>\<open>
    while np.sum(heralding_mask[:, i] == 0) > n_pass_min:
        n_short = np.sum(heralding_mask[:, i] == 0) - n_pass_min
        heralding_mask[j : j + n_short, i] = -1
        j += n_short
  \<close>
\<close>

partial_function (option) truncate_while :: "nat \<Rightarrow> nat \<Rightarrow> nat \<Rightarrow> ndarray \<Rightarrow> ndarray option" where
  "truncate_while n_pass_min i j heralding_mask =
     (if count_zero (column heralding_mask i) > n_pass_min
      then truncate_while n_pass_min i
             (j + (count_zero (column heralding_mask i) - n_pass_min))
             (assign_slice heralding_mask j
                (j + (count_zero (column heralding_mask i) - n_pass_min)) i (- 1))
      else Some heralding_mask)"

declare truncate_while.simps [code]

text \<open>The outer loop \<open>for i in range(heralding_mask.shape[1])\<close>, with \<open>j = 0\<close> at each start.\<close>

fun truncate_columns :: "nat \<Rightarrow> nat list \<Rightarrow> ndarray \<Rightarrow> ndarray option" where
  "truncate_columns n_pass_min [] heralding_mask = Some heralding_mask"
| "truncate_columns n_pass_min (i # is) heralding_mask =
     (case truncate_while n_pass_min i 0 heralding_mask of
        None \<Rightarrow> None
      | Some m \<Rightarrow> truncate_columns n_pass_min is m)"

text \<open>
  Lines 153 to 162 of \<open>heralding_test\<close>:
  \<open>n_pass_min = np.min(np.sum(heralding_mask == 0, axis=0))\<close> followed by the two loops.
  \<open>np.min\<close> of an empty array (no sweep point) raises \<open>ValueError\<close>.
\<close>

definition pass_counts :: "ndarray \<Rightarrow> nat list" where
  \<comment> \<open>\<open>np.sum(heralding_mask == 0, axis=0)\<close>\<close>
  "pass_counts a = map (\<lambda>i. count_zero (column a i)) [0..<n_cols a]"

definition np_min :: "nat list \<Rightarrow> error + nat" where
  "np_min v = (case v of [] \<Rightarrow> Inl ValueError | c # cs \<Rightarrow> Inr (fold min cs c))"

definition truncate_mask :: "ndarray \<Rightarrow> (error + ndarray) option" where
  "truncate_mask heralding_mask =
     (case np_min (pass_counts heralding_mask) of
        Inl e \<Rightarrow> Some (Inl e)
      | Inr n_pass_min \<Rightarrow>
          map_option Inr
            (truncate_columns n_pass_min [0..<n_cols heralding_mask] heralding_mask))"

section \<open>The measurement batch\<close>

text \<open>
  \<open>self.measurement\<close> is a Python \<open>dict\<close> from resonator name to a per-resonator
  \<open>data_dict\<close>; a \<open>dict\<close> iterates in insertion order, so it is an association list.
  A \<open>data_dict\<close> maps a key such as \<open>'Heterodyned_readout'\<close> to an array: complex IQ
  samples, integer labels, or populations. Populations and matrix entries are rationals,
  which include every floating-point value; the numpy calls that compute them are
  parameters of the model.
\<close>

datatype data =
    IQ "complex list list"
  | Labels ndarray
  | Population "rat list list"

type_synonym data_dict = "string \<rightharpoonup> data"

type_synonym measurement_dict = "(string \<times> data_dict) list"

definition getitem :: "data_dict \<Rightarrow> string \<Rightarrow> error + data" where
  \<comment> \<open>\<open>data_dict[key]\<close>\<close>
  "getitem d key = (case d key of None \<Rightarrow> Inl KeyError | Some v \<Rightarrow> Inr v)"

definition measurement_getitem :: "measurement_dict \<Rightarrow> string \<Rightarrow> error + data_dict" where
  \<comment> \<open>\<open>self.measurement[r]\<close>\<close>
  "measurement_getitem meas r = (case map_of meas r of None \<Rightarrow> Inl KeyError | Some d \<Rightarrow> Inr d)"

section \<open>\<open>heralding_test\<close>\<close>

text \<open>
  \<open>resonators = self.measurement.keys()\<close> is a \<open>dict_keys\<close> view. In Python 3 a view has
  no \<open>__getitem__\<close>: \<open>resonators[0]\<close> raises
  \<open>TypeError: 'dict_keys' object is not subscriptable\<close>, whatever the keys and the index.
\<close>

definition keys_view_getitem :: "string list \<Rightarrow> nat \<Rightarrow> error + string" where
  "keys_view_getitem resonators n = Inl TypeError"

definition heralding_labels :: "measurement_dict \<Rightarrow> string \<Rightarrow> error + ndarray" where
  \<comment> \<open>\<open>self.measurement[r]['GMMpredicted_heralding']\<close>, used as an integer array:
      \<open>|\<close> is not defined on float or complex arrays\<close>
  "heralding_labels meas r =
     bind_err (measurement_getitem meas r) (\<lambda>d.
     bind_err (getitem d ''GMMpredicted_heralding'') (\<lambda>v.
       case v of Labels a \<Rightarrow> Inr a | _ \<Rightarrow> Inl TypeError))"

definition zeros_like :: "ndarray \<Rightarrow> ndarray" where
  "zeros_like a = \<lparr>n_cols = n_cols a, rows = replicate (length (rows a)) (replicate (n_cols a) 0)\<rparr>"

definition broadcast_dim :: "nat \<Rightarrow> nat \<Rightarrow> nat option" where
  "broadcast_dim m n =
     (if m = n then Some m else if m = 1 then Some n else if n = 1 then Some m else None)"

definition broadcast_to :: "nat \<Rightarrow> nat \<Rightarrow> ndarray \<Rightarrow> ndarray" where
  "broadcast_to R P a =
     \<lparr>n_cols = P,
      rows = map (\<lambda>row. if n_cols a = P then row else replicate P (hd row))
               (if length (rows a) = R then rows a else replicate R (hd (rows a)))\<rparr>"

definition bitwise_or :: "ndarray \<Rightarrow> ndarray \<Rightarrow> error + ndarray" where
  \<comment> \<open>\<open>a | b\<close> with numpy broadcasting of dimensions of size one\<close>
  "bitwise_or a b =
     (case (broadcast_dim (length (rows a)) (length (rows b)), broadcast_dim (n_cols a) (n_cols b)) of
        (Some R, Some P) \<Rightarrow>
          Inr \<lparr>n_cols = P,
               rows = map2 (map2 (\<lambda>x y. x OR y)) (rows (broadcast_to R P a)) (rows (broadcast_to R P b))\<rparr>
      | _ \<Rightarrow> Inl ValueError)"

fun or_channels :: "measurement_dict \<Rightarrow> string list \<Rightarrow> ndarray \<Rightarrow> error + ndarray" where
  \<comment> \<open>\<open>for r in resonators: heralding_mask = heralding_mask | self.measurement[r][...]\<close>\<close>
  "or_channels meas [] heralding_mask = Inr heralding_mask"
| "or_channels meas (r # rs) heralding_mask =
     bind_err (heralding_labels meas r) (\<lambda>a.
     bind_err (bitwise_or heralding_mask a) (or_channels meas rs))"

definition build_heralding_mask ::
  "measurement_dict \<Rightarrow> string list \<Rightarrow> string \<Rightarrow> (error + ndarray) option" where
  \<comment> \<open>the body of \<open>heralding_test\<close> once \<open>resonators[0]\<close> has yielded \<open>r0\<close>\<close>
  "build_heralding_mask meas resonators r0 =
     (case bind_err (heralding_labels meas r0) (\<lambda>a. or_channels meas resonators (zeros_like a)) of
        Inl e \<Rightarrow> Some (Inl e)
      | Inr heralding_mask \<Rightarrow> truncate_mask heralding_mask)"

section \<open>The process manager\<close>

text \<open>
  The entries of one resonator in the configuration, read in the source through paths such
  as \<open>self[f'{r}/IQ_means']\<close>.
\<close>

record channel =
  IQ_rotation_angle :: real
  IQ_means :: "rat list list"
  IQ_covariances :: "rat list"
  corr_matrix :: "rat list list"
  readout_levels :: "int list"
  n_readout_levels :: nat

text \<open>
  The state of a \<open>ProcessManager\<close>. \<open>config_dict\<close> holds the resonator entries of the
  in-memory configuration; \<open>yaml_file\<close> is the configuration as persisted, which only
  \<open>Config.save\<close> writes; \<open>measurement\<close> is the attribute \<open>self.measurement\<close>, \<open>None\<close> while
  the attribute has never been set; \<open>stdout\<close> collects what \<open>print\<close> writes.
\<close>

record process_manager =
  customized :: bool
  heralding :: bool
  classification :: bool
  resonators :: "string list"
  config_dict :: "(string \<times> channel) list"
  yaml_file :: "(string \<times> channel) list"
  measurement :: "measurement_dict option"
  stdout :: "string list"

text \<open>
  Modelled from the spec: \<open>Config.__getitem__\<close>, \<open>Config.set\<close> and \<open>Config.__setitem__\<close> are
  not part of the modelled files. The configuration collaborator "exposes read access keyed
  by hierarchical path strings" and persists only through \<open>save()\<close>; a path below a missing
  resonator is taken to raise \<open>KeyError\<close>, and both ways of writing change the in-memory
  configuration only.
\<close>

definition config_getitem :: "process_manager \<Rightarrow> string \<Rightarrow> error + channel" where
  "config_getitem s r = (case map_of (config_dict s) r of None \<Rightarrow> Inl KeyError | Some c \<Rightarrow> Inr c)"

fun dict_set :: "'k \<Rightarrow> 'v \<Rightarrow> ('k \<times> 'v) list \<Rightarrow> ('k \<times> 'v) list" where
  \<comment> \<open>\<open>d[k] = v\<close> on a \<open>dict\<close>: an existing key keeps its place, a new key goes last\<close>
  "dict_set k v [] = [(k, v)]"
| "dict_set k v ((k', v') # d) = (if k = k' then (k, v) # d else (k', v') # dict_set k v d)"

definition config_set :: "string \<Rightarrow> channel \<Rightarrow> process_manager \<Rightarrow> process_manager" where
  "config_set r c s = s\<lparr>config_dict := dict_set r c (config_dict s)\<rparr>"

subsection \<open>\<open>check_IQ_matrices\<close>\<close>

definition np_identity :: "nat \<Rightarrow> rat list list" where
  \<comment> \<open>\<open>np.identity(n).tolist()\<close>\<close>
  "np_identity n = map (\<lambda>i. map (\<lambda>j. if i = j then 1 else 0) [0..<n]) [0..<n]"

definition shape_warning :: "string \<Rightarrow> string" where
  "shape_warning r =
     ''ProcessManager: The shapes of IQ matrices in '' @ r
     @ '' are not compatible with its readout_levels. ''
     @ ''New matrices will be generated. Please save it by calling cfg.save()''"

definition check_channel :: "string \<Rightarrow> process_manager \<Rightarrow> error + process_manager" where
  \<comment> \<open>the body of the loop of \<open>check_IQ_matrices\<close> for resonator \<open>r\<close>\<close>
  "check_channel r s =
     bind_err (config_getitem s r) (\<lambda>c0.
       let c = c0\<lparr>n_readout_levels := length (readout_levels c0)\<rparr>;
           s1 = config_set r c s
       in if n_readout_levels c = length (IQ_means c)
             \<and> length (IQ_means c) = length (IQ_covariances c)
             \<and> length (IQ_covariances c) = length (corr_matrix c)
          then Inr s1
          else Inr (config_set r
                      (c\<lparr>corr_matrix := np_identity (n_readout_levels c),
                         IQ_covariances := map (\<lambda>i. 1) [0..<n_readout_levels c],
                         IQ_means := map (\<lambda>i. [of_nat i, of_nat i]) [0..<n_readout_levels c]\<rparr>)
                      (s1\<lparr>stdout := stdout s1 @ [shape_warning r]\<rparr>)))"

fun check_loop :: "string list \<Rightarrow> process_manager \<Rightarrow> error + process_manager" where
  "check_loop [] s = Inr s"
| "check_loop (r # rs) s = bind_err (check_channel r s) (check_loop rs)"

definition check_IQ_matrices :: "process_manager \<Rightarrow> error + process_manager" where
  "check_IQ_matrices s = check_loop (resonators s) s"

text \<open>
  \<open>ProcessManager.load\<close> after \<open>super().load()\<close> has filled the configuration: the resonator
  list is the list of keys that start with \<open>R\<close>.
\<close>

definition startswith :: "string \<Rightarrow> string \<Rightarrow> bool" where
  "startswith key pre = (take (length pre) key = pre)"

definition ProcessManager_load :: "process_manager \<Rightarrow> error + process_manager" where
  "ProcessManager_load s =
     check_IQ_matrices
       (s\<lparr>resonators := filter (\<lambda>key. startswith key ''R'') (map fst (config_dict s))\<rparr>)"


subsection \<open>\<open>process_data\<close>\<close>

text \<open>
  The helpers imported from \<open>qtrlb.processing.processing\<close>, and the numpy calls \<open>np.mean\<close>
  and \<open>np.linalg.solve\<close>, which compute in floating point, are parameters: each takes the
  arrays it is called with and returns an array or raises. \<open>np_linalg_solve h a b\<close> stands
  for \<open>np.linalg.solve(a, b)\<close>, with the matrix first.
\<close>

record helpers =
  rotate_IQ :: "data \<Rightarrow> real \<Rightarrow> error + data"
  gmm_predict :: "data \<Rightarrow> rat list list \<Rightarrow> rat list \<Rightarrow> error + data"
  normalize_population :: "data \<Rightarrow> nat \<Rightarrow> data option \<Rightarrow> error + data"
  autorotate_IQ :: "data \<Rightarrow> nat \<Rightarrow> error + data"
  np_mean_axis1 :: "data \<Rightarrow> error + data"
  np_linalg_solve :: "rat list list \<Rightarrow> data \<Rightarrow> error + data"

text \<open>
  A routine mutates each \<open>data_dict\<close> in place, so an exception leaves the keys stored so
  far: a statement \<open>data_dict[key] = rhs\<close> either raises while evaluating \<open>rhs\<close>, and the
  dictionary is returned as it is together with the error, or stores and goes on.
\<close>

definition assign ::
  "string \<Rightarrow> (data_dict \<Rightarrow> error + data) \<Rightarrow> (data_dict \<Rightarrow> data_dict \<times> error option)
     \<Rightarrow> data_dict \<Rightarrow> data_dict \<times> error option" where
  "assign key rhs rest d =
     (case rhs d of Inl e \<Rightarrow> (d, Some e) | Inr v \<Rightarrow> rest (d(key \<mapsto> v)))"

definition finish :: "data_dict \<Rightarrow> data_dict \<times> error option" where
  "finish d = (d, None)"

fun for_items ::
  "(string \<Rightarrow> data_dict \<Rightarrow> data_dict \<times> error option) \<Rightarrow> measurement_dict
     \<Rightarrow> measurement_dict \<times> error option" where
  \<comment> \<open>\<open>for r, data_dict in self.measurement.items(): body\<close>\<close>
  "for_items body [] = ([], None)"
| "for_items body ((r, d) # rest) =
     (case body r d of
        (d', Some e) \<Rightarrow> ((r, d') # rest, Some e)
      | (d', None) \<Rightarrow>
          (case for_items body rest of (rest', res) \<Rightarrow> ((r, d') # rest', res)))"

definition rotated :: "helpers \<Rightarrow> process_manager \<Rightarrow> string \<Rightarrow> string \<Rightarrow> data_dict \<Rightarrow> error + data" where
  \<comment> \<open>\<open>rotate_IQ(data_dict[key], angle=self[f'{r}/IQ_rotation_angle'])\<close>\<close>
  "rotated h s r key d =
     bind_err (getitem d key) (\<lambda>x.
     bind_err (config_getitem s r) (\<lambda>c. rotate_IQ h x (IQ_rotation_angle c)))"

definition predicted :: "helpers \<Rightarrow> process_manager \<Rightarrow> string \<Rightarrow> string \<Rightarrow> data_dict \<Rightarrow> error + data" where
  \<comment> \<open>\<open>gmm_predict(data_dict[key], means=self[f'{r}/IQ_means'],
      covariances=self[f'{r}/IQ_covariances'])\<close>\<close>
  "predicted h s r key d =
     bind_err (getitem d key) (\<lambda>x.
     bind_err (config_getitem s r) (\<lambda>c. gmm_predict h x (IQ_means c) (IQ_covariances c)))"

definition corrected :: "helpers \<Rightarrow> process_manager \<Rightarrow> string \<Rightarrow> data_dict \<Rightarrow> error + data" where
  \<comment> \<open>\<open>np.linalg.solve(self[f'{r}/corr_matrix'], data_dict['PopulationNormalized_readout'])\<close>\<close>
  "corrected h s r d =
     bind_err (config_getitem s r) (\<lambda>c.
     bind_err (getitem d ''PopulationNormalized_readout'') (\<lambda>b.
       np_linalg_solve h (corr_matrix c) b))"

definition heralding_first :: "helpers \<Rightarrow> process_manager \<Rightarrow> string \<Rightarrow> data_dict \<Rightarrow> data_dict \<times> error option" where
  "heralding_first h s r =
     assign ''IQrotated_readout'' (rotated h s r ''Heterodyned_readout'')
    (assign ''IQrotated_heralding'' (rotated h s r ''Heterodyned_heralding'')
    (assign ''GMMpredicted_readout'' (predicted h s r ''IQrotated_readout'')
    (assign ''GMMpredicted_heralding'' (predicted h s r ''IQrotated_heralding'')
     finish)))"

definition heralding_second ::
  "helpers \<Rightarrow> process_manager \<Rightarrow> ndarray \<Rightarrow> string \<Rightarrow> data_dict \<Rightarrow> data_dict \<times> error option" where
  "heralding_second h s heralding_mask r =
     assign ''Mask_heralding'' (\<lambda>d. Inr (Labels heralding_mask))
    (assign ''PopulationNormalized_readout''
       (\<lambda>d. bind_err (getitem d ''GMMpredicted_readout'') (\<lambda>x.
             bind_err (config_getitem s r) (\<lambda>c.
             bind_err (getitem d ''Mask_heralding'') (\<lambda>m.
               normalize_population h x (n_readout_levels c) (Some m)))))
    (assign ''PopulationCorrected_readout'' (corrected h s r)
    (assign ''to_fit'' (\<lambda>d. getitem d ''PopulationCorrected_readout'')
     finish)))"

definition classification_body :: "helpers \<Rightarrow> process_manager \<Rightarrow> string \<Rightarrow> data_dict \<Rightarrow> data_dict \<times> error option" where
  "classification_body h s r =
     assign ''IQrotated_readout'' (rotated h s r ''Heterodyned_readout'')
    (assign ''GMMpredicted_readout'' (predicted h s r ''IQrotated_readout'')
    (assign ''PopulationNormalized_readout''
       (\<lambda>d. bind_err (getitem d ''GMMpredicted_readout'') (\<lambda>x.
             bind_err (config_getitem s r) (\<lambda>c.
               normalize_population h x (n_readout_levels c) None)))
    (assign ''PopulationCorrected_readout'' (corrected h s r)
    (assign ''to_fit'' (\<lambda>d. getitem d ''PopulationCorrected_readout'')
     finish))))"

definition bare_body :: "helpers \<Rightarrow> process_manager \<Rightarrow> string \<Rightarrow> data_dict \<Rightarrow> data_dict \<times> error option" where
  "bare_body h s r =
     assign ''IQrotated_readout'' (rotated h s r ''Heterodyned_readout'')
    (assign ''IQautorotated_readout''
       (\<lambda>d. bind_err (getitem d ''IQrotated_readout'') (\<lambda>x.
             bind_err (config_getitem s r) (\<lambda>c. autorotate_IQ h x (n_readout_levels c))))
    (assign ''IQaveraged_readout''
       (\<lambda>d. bind_err (getitem d ''IQautorotated_readout'') (np_mean_axis1 h))
    (assign ''to_fit'' (\<lambda>d. getitem d ''IQaveraged_readout'')
     finish)))"

text \<open>
  \<open>heralding_test\<close> reads \<open>self.measurement\<close>; an attribute that was never set raises
  \<open>AttributeError\<close>. The result is \<open>None\<close> when a truncation loop does not end.
\<close>

definition heralding_test :: "process_manager \<Rightarrow> (error + ndarray) option" where
  "heralding_test s =
     (case measurement s of
        None \<Rightarrow> Some (Inl AttributeError)
      | Some meas \<Rightarrow>
          (case keys_view_getitem (map fst meas) 0 of
             Inl e \<Rightarrow> Some (Inl e)
           | Inr r0 \<Rightarrow> build_heralding_mask meas (map fst meas) r0))"

text \<open>
  The routines. Each begins with \<open>self.measurement.items()\<close>. The result pairs the state
  the call leaves behind with the exception that ended it, if any.
\<close>

definition run_items ::
  "(string \<Rightarrow> data_dict \<Rightarrow> data_dict \<times> error option) \<Rightarrow> process_manager
     \<Rightarrow> process_manager \<times> error option" where
  "run_items body s =
     (case measurement s of
        None \<Rightarrow> (s, Some AttributeError)
      | Some meas \<Rightarrow>
          (case for_items body meas of (meas', res) \<Rightarrow> (s\<lparr>measurement := Some meas'\<rparr>, res)))"

definition heralding_routine :: "helpers \<Rightarrow> process_manager \<Rightarrow> (process_manager \<times> error option) option" where
  "heralding_routine h s =
     (case run_items (heralding_first h s) s of
        (s1, Some e) \<Rightarrow> Some (s1, Some e)
      | (s1, None) \<Rightarrow>
          (case heralding_test s1 of
             None \<Rightarrow> None
           | Some (Inl e) \<Rightarrow> Some (s1, Some e)
           | Some (Inr heralding_mask) \<Rightarrow> Some (run_items (heralding_second h s1 heralding_mask) s1)))"

definition classification_routine :: "helpers \<Rightarrow> process_manager \<Rightarrow> process_manager \<times> error option" where
  "classification_routine h s = run_items (classification_body h s) s"

definition bare_routine :: "helpers \<Rightarrow> process_manager \<Rightarrow> process_manager \<times> error option" where
  "bare_routine h s = run_items (bare_body h s) s"

text \<open>
  \<open>process_data(self, measurement, fitmodel)\<close>: the \<open>if\<close>/\<open>elif\<close> chain of the source. The
  two parameters are not mentioned in the body.
\<close>

definition process_data ::
  "helpers \<Rightarrow> process_manager \<Rightarrow> measurement_dict \<Rightarrow> 'fitmodel
     \<Rightarrow> (process_manager \<times> error option) option" where
  "process_data h s measurement_arg fitmodel =
     (if customized s then Some (s, None)
      else if heralding s then heralding_routine h s
      else if classification s then Some (classification_routine h s)
      else Some (bare_routine h s))"


section \<open>The variable manager\<close>

text \<open>
  The configuration of a \<open>VariableManager\<close> after \<open>super().load()\<close>: top-level keys map to
  the entries of a qubit, of a resonator, or to something else. Frequencies are exact
  rationals. A qubit holds its scalar entries and, under further keys such as \<open>'01'\<close> and
  \<open>'12'\<close>, its subspaces; the scalar keys are not decimal strings, so the loop over the keys
  of a qubit skips them and only \<open>qubit_items\<close> is iterated.
\<close>

record subspace =
  freq :: rat
  mod_freq :: "rat option"
  anharmonicity :: "rat option"

datatype qubit_item = Subspace subspace | Leaf

record qubit =
  qubit_LO :: rat
  qubit_module :: int
  qubit_sequencer :: int
  qubit_out :: int
  qubit_items :: "(string \<times> qubit_item) list"

record resonator =
  resonator_freq :: rat
  resonator_LO :: rat
  resonator_module :: int
  resonator_sequencer :: int
  resonator_mod_freq :: "rat option"
  resonator_readout_levels :: "int list"
  lowest_readout_levels :: "int option"
  highest_readout_levels :: "int option"
  resonator_n_readout_levels :: "nat option"

datatype entry = Qubit qubit | Resonator resonator | Other

record variable_manager =
  qubits :: "string list"
  resonator_names :: "string list"
  variables :: "(string \<times> entry) list"

text \<open>
  Modelled from the spec: \<open>Config.__getitem__\<close> and \<open>Config.set\<close> are not part of the
  modelled files; a path that does not lead to an entry of the expected kind raises
  \<open>KeyError\<close>, and \<open>set(..., which='dict')\<close> writes the in-memory configuration.
\<close>

definition get_qubit :: "variable_manager \<Rightarrow> string \<Rightarrow> error + qubit" where
  "get_qubit s q = (case map_of (variables s) q of Some (Qubit c) \<Rightarrow> Inr c | _ \<Rightarrow> Inl KeyError)"

definition get_resonator :: "variable_manager \<Rightarrow> string \<Rightarrow> error + resonator" where
  "get_resonator s r = (case map_of (variables s) r of Some (Resonator c) \<Rightarrow> Inr c | _ \<Rightarrow> Inl KeyError)"

definition get_subspace :: "qubit \<Rightarrow> string \<Rightarrow> error + subspace" where
  "get_subspace c key = (case map_of (qubit_items c) key of Some (Subspace sp) \<Rightarrow> Inr sp | _ \<Rightarrow> Inl KeyError)"

definition set_entry :: "string \<Rightarrow> entry \<Rightarrow> variable_manager \<Rightarrow> variable_manager" where
  "set_entry key e s = s\<lparr>variables := dict_set key e (variables s)\<rparr>"

definition set_subspace :: "string \<Rightarrow> qubit \<Rightarrow> string \<Rightarrow> subspace \<Rightarrow> variable_manager \<Rightarrow> variable_manager" where
  "set_subspace q c key sp s =
     set_entry q (Qubit (c\<lparr>qubit_items := dict_set key (Subspace sp) (qubit_items c)\<rparr>)) s"

subsection \<open>Strings of digits\<close>

definition isdecimal :: "string \<Rightarrow> bool" where
  \<comment> \<open>\<open>str.isdecimal\<close> on ASCII text\<close>
  "isdecimal key = (key \<noteq> [] \<and> list_all (\<lambda>ch. ch \<in> set ''0123456789'') key)"

definition digit_value :: "char \<Rightarrow> nat" where
  "digit_value ch = of_char ch - 48"

definition int_of_str :: "string \<Rightarrow> int" where
  \<comment> \<open>\<open>int(key)\<close> for a decimal string\<close>
  "int_of_str key = int (fold (\<lambda>ch n. 10 * n + digit_value ch) key 0)"

fun str_of_nat :: "nat \<Rightarrow> string" where
  "str_of_nat n =
     (if n < 10 then [char_of (48 + n)] else str_of_nat (n div 10) @ [char_of (48 + n mod 10)])"

definition format_02 :: "int \<Rightarrow> string" where
  \<comment> \<open>\<open>f'{v:02}'\<close>: at least two characters, padded with zeros, the sign included\<close>
  "format_02 v =
     (if v < 0 then ''-'' @ str_of_nat (nat (- v))
      else if v < 10 then ''0'' @ str_of_nat (nat v)
      else str_of_nat (nat v))"

subsection \<open>\<open>set_parameters\<close>\<close>

definition set_mod_freq :: "string \<Rightarrow> string \<Rightarrow> variable_manager \<Rightarrow> error + variable_manager" where
  "set_mod_freq q key s =
     bind_err (get_qubit s q) (\<lambda>c.
     bind_err (get_subspace c key) (\<lambda>sp.
       Inr (set_subspace q c key (sp\<lparr>mod_freq := Some (freq sp - qubit_LO c)\<rparr>) s)))"

definition set_anharmonicity :: "string \<Rightarrow> string \<Rightarrow> variable_manager \<Rightarrow> error + variable_manager" where
  "set_anharmonicity q key s =
     bind_err (get_qubit s q) (\<lambda>c.
     bind_err (get_subspace c key) (\<lambda>sp.
     bind_err (get_subspace c (format_02 (int_of_str key - 11))) (\<lambda>lower.
       Inr (set_subspace q c key (sp\<lparr>anharmonicity := Some (freq sp - freq lower)\<rparr>) s))))"

fun subspace_loop :: "string \<Rightarrow> string list \<Rightarrow> variable_manager \<Rightarrow> error + variable_manager" where
  "subspace_loop q [] s = Inr s"
| "subspace_loop q (key # keys) s =
     (if \<not> isdecimal key then subspace_loop q keys s
      else bind_err (set_mod_freq q key s) (\<lambda>s1.
             if key = ''01'' then subspace_loop q keys s1
             else bind_err (set_anharmonicity q key s1) (subspace_loop q keys)))"

fun qubit_loop :: "string list \<Rightarrow> variable_manager \<Rightarrow> error + variable_manager" where
  "qubit_loop [] s = Inr s"
| "qubit_loop (q # qs) s =
     bind_err (get_qubit s q) (\<lambda>c.
     bind_err (subspace_loop q (map fst (qubit_items c)) s) (qubit_loop qs))"

definition set_resonator :: "string \<Rightarrow> variable_manager \<Rightarrow> error + variable_manager" where
  \<comment> \<open>the body of \<open>for r in self['resonators']\<close>\<close>
  "set_resonator r s =
     bind_err (get_resonator s r) (\<lambda>c0.
       let c1 = c0\<lparr>resonator_mod_freq := Some (resonator_freq c0 - resonator_LO c0)\<rparr>;
           c2 = c1\<lparr>resonator_readout_levels := sort (resonator_readout_levels c1)\<rparr>
       in if resonator_readout_levels c2 = [] then Inl IndexError
          else Inr (set_entry r
                 (Resonator (c2\<lparr>lowest_readout_levels := Some (hd (resonator_readout_levels c2)),
                                highest_readout_levels := Some (last (resonator_readout_levels c2)),
                                resonator_n_readout_levels := Some (length (resonator_readout_levels c2))\<rparr>))
                 s))"

fun resonator_loop :: "string list \<Rightarrow> variable_manager \<Rightarrow> error + variable_manager" where
  "resonator_loop [] s = Inr s"
| "resonator_loop (r # rs) s = bind_err (set_resonator r s) (resonator_loop rs)"

definition set_parameters :: "variable_manager \<Rightarrow> error + variable_manager" where
  "set_parameters s = bind_err (qubit_loop (qubits s) s) (\<lambda>s1. resonator_loop (resonator_names s1) s1)"

subsection \<open>\<open>check_module_sequencer_LO\<close>\<close>

fun check_qubit_against :: "variable_manager \<Rightarrow> string \<Rightarrow> string list \<Rightarrow> error + unit" where
  "check_qubit_against s qubit [] = Inr ()"
| "check_qubit_against s qubit (qubjt # rest) =
     bind_err (get_qubit s qubjt) (\<lambda>cj.
     bind_err (get_qubit s qubit) (\<lambda>ci.
       if qubit_module cj = qubit_module ci
       then (if qubit_sequencer cj = qubit_sequencer ci then Inl AssertionError
             else if qubit_out cj = qubit_out ci \<and> qubit_LO cj \<noteq> qubit_LO ci then Inl AssertionError
             else check_qubit_against s qubit rest)
       else check_qubit_against s qubit rest))"

fun check_qubits :: "variable_manager \<Rightarrow> string list \<Rightarrow> error + unit" where
  "check_qubits s [] = Inr ()"
| "check_qubits s (qubit # rest) =
     bind_err (check_qubit_against s qubit rest) (\<lambda>_. check_qubits s rest)"

fun check_resonator_against :: "variable_manager \<Rightarrow> string \<Rightarrow> string list \<Rightarrow> error + unit" where
  "check_resonator_against s resonator [] = Inr ()"
| "check_resonator_against s resonator (resonatos # rest) =
     bind_err (get_resonator s resonatos) (\<lambda>cj.
     bind_err (get_resonator s resonator) (\<lambda>ci.
       if resonator_module cj = resonator_module ci
       then (if resonator_sequencer cj = resonator_sequencer ci then Inl AssertionError
             else if resonator_LO cj \<noteq> resonator_LO ci then Inl AssertionError
             else check_resonator_against s resonator rest)
       else check_resonator_against s resonator rest))"

fun check_resonators :: "variable_manager \<Rightarrow> string list \<Rightarrow> error + unit" where
  "check_resonators s [] = Inr ()"
| "check_resonators s (resonator # rest) =
     bind_err (check_resonator_against s resonator rest) (\<lambda>_. check_resonators s rest)"

definition check_module_sequencer_LO :: "variable_manager \<Rightarrow> error + unit" where
  "check_module_sequencer_LO s =
     bind_err (check_qubits s (qubits s)) (\<lambda>_. check_resonators s (resonator_names s))"

subsection \<open>\<open>VariableManager.load\<close>\<close>

definition VariableManager_load :: "variable_manager \<Rightarrow> error + variable_manager" where
  "VariableManager_load s =
     (let s1 = s\<lparr>qubits := filter (\<lambda>key. startswith key ''Q'') (map fst (variables s)),
                resonator_names := filter (\<lambda>key. startswith key ''R'') (map fst (variables s))\<rparr>
      in bind_err (set_parameters s1) (\<lambda>s2.
         bind_err (check_module_sequencer_LO s2) (\<lambda>_. Inr s2)))"

section \<open>Auxiliary notions for the statements\<close>

text \<open>The rows at which two versions of a column differ.\<close>

definition overwritten :: "int list \<Rightarrow> int list \<Rightarrow> nat list" where
  "overwritten before after = filter (\<lambda>n. before ! n \<noteq> after ! n) [0..<length before]"

text \<open>The keys that only the second half of the heralding routine stores.\<close>

definition result_keys :: "string set" where
  "result_keys = {''Mask_heralding'', ''PopulationNormalized_readout'',
                  ''PopulationCorrected_readout'', ''to_fit''}"

text \<open>What a call of \<open>process_data\<close> has left under a key of a resonator's \<open>data_dict\<close>.\<close>

definition stored :: "(process_manager \<times> error option) option \<Rightarrow> string \<Rightarrow> string \<Rightarrow> data option" where
  "stored res r key =
     (case res of
        None \<Rightarrow> None
      | Some (s', _) \<Rightarrow>
          (case measurement s' of
             None \<Rightarrow> None
           | Some meas \<Rightarrow> (case map_of meas r of None \<Rightarrow> None | Some d \<Rightarrow> d key)))"

text \<open>
  The comparison of \<open>check_IQ_matrices\<close> and the channel that one pass of its loop leaves,
  as functions of the channel alone.
\<close>

definition shapes_agree :: "channel \<Rightarrow> bool" where
  "shapes_agree c =
     (length (readout_levels c) = length (IQ_means c)
      \<and> length (IQ_means c) = length (IQ_covariances c)
      \<and> length (IQ_covariances c) = length (corr_matrix c))"

definition checked :: "channel \<Rightarrow> channel" where
  "checked c =
     (if shapes_agree c then c\<lparr>n_readout_levels := length (readout_levels c)\<rparr>
      else c\<lparr>n_readout_levels := length (readout_levels c),
             corr_matrix := np_identity (length (readout_levels c)),
             IQ_covariances := replicate (length (readout_levels c)) 1,
             IQ_means := map (\<lambda>i. [of_nat i, of_nat i]) [0..<length (readout_levels c)]\<rparr>)"

text \<open>The readout entries of resonator \<open>r\<close> are derived from its sorted levels.\<close>

definition levels_set :: "variable_manager \<Rightarrow> string \<Rightarrow> bool" where
  "levels_set s r =
     (\<exists>c. get_resonator s r = Inr c
        \<and> sorted (resonator_readout_levels c)
        \<and> resonator_readout_levels c \<noteq> []
        \<and> lowest_readout_levels c = Some (hd (resonator_readout_levels c))
        \<and> highest_readout_levels c = Some (last (resonator_readout_levels c))
        \<and> resonator_n_readout_levels c = Some (length (resonator_readout_levels c)))"

section \<open>A solver in exact arithmetic\<close>

text \<open>
  The concrete inputs below need some solver to run on. This one works in exact rational
  arithmetic: \<open>a\<close> must be a square matrix and \<open>b\<close> must have as many rows as \<open>a\<close>; the
  system \<open>a \<cdot> x = b\<close> is solved by elimination with row exchange for all right-hand sides at
  once, and a matrix without a pivot raises \<open>LinAlgError\<close>. It is an instance of the solver
  parameter, not a description of \<open>np.linalg.solve\<close>, which computes in floating point: no
  statement about \<open>process_data\<close> depends on it. An equation is a pair of its coefficients
  and its right-hand sides, one for each column of \<open>b\<close>.
\<close>

definition dot :: "'a::field list \<Rightarrow> 'a list \<Rightarrow> 'a" where
  "dot u v = sum_list (map2 (\<lambda>x y. x * y) u v)"

definition vsub :: "'a::field list \<Rightarrow> 'a list \<Rightarrow> 'a list" where
  "vsub u v = map2 (\<lambda>x y. x - y) u v"

definition smul :: "'a::field \<Rightarrow> 'a list \<Rightarrow> 'a list" where
  "smul c v = map (\<lambda>x. c * x) v"

definition col :: "'a list list \<Rightarrow> nat \<Rightarrow> 'a list" where
  "col x k = map (\<lambda>row. row ! k) x"

definition lincomb :: "nat \<Rightarrow> 'a::field list \<Rightarrow> 'a list list \<Rightarrow> 'a list" where
  \<comment> \<open>the row \<open>c \<cdot> x\<close> of a product whose right factor has \<open>K\<close> columns\<close>
  "lincomb K c x = map (\<lambda>k. dot c (col x k)) [0..<K]"

definition mat_mul :: "nat \<Rightarrow> 'a::field list list \<Rightarrow> 'a list list \<Rightarrow> 'a list list" where
  "mat_mul K a x = map (\<lambda>c. lincomb K c x) a"

fun pivot_split ::
  "('a::field list \<times> 'a list) list \<Rightarrow> (('a list \<times> 'a list) \<times> ('a list \<times> 'a list) list) option" where
  "pivot_split [] = None"
| "pivot_split (e # es) =
     (if fst e \<noteq> [] \<and> hd (fst e) \<noteq> 0 then Some (e, es)
      else (case pivot_split es of None \<Rightarrow> None | Some (p, rest) \<Rightarrow> Some (p, e # rest)))"

definition eliminate :: "('a::field list \<times> 'a list) \<Rightarrow> ('a list \<times> 'a list) \<Rightarrow> ('a list \<times> 'a list)" where
  "eliminate p e =
     (vsub (tl (fst e)) (smul (hd (fst e) / hd (fst p)) (tl (fst p))),
      vsub (snd e) (smul (hd (fst e) / hd (fst p)) (snd p)))"

definition back_substitute :: "('a::field list \<times> 'a list) \<Rightarrow> 'a list list \<Rightarrow> 'a list" where
  "back_substitute p xs =
     smul (inverse (hd (fst p))) (vsub (snd p) (lincomb (length (snd p)) (tl (fst p)) xs))"

fun gauss :: "nat \<Rightarrow> ('a::field list \<times> 'a list) list \<Rightarrow> 'a list list option" where
  \<comment> \<open>\<open>gauss n es\<close>: \<open>n\<close> unknowns are left, one is eliminated in each round\<close>
  "gauss 0 es = Some []"
| "gauss (Suc n) es =
     (case pivot_split es of
        None \<Rightarrow> None
      | Some (p, rest) \<Rightarrow>
          (case gauss n (map (eliminate p) rest) of
             None \<Rightarrow> None
           | Some xs \<Rightarrow> Some (back_substitute p xs # xs)))"

definition elimination_solve :: "'a::field list list \<Rightarrow> 'a list list \<Rightarrow> error + 'a list list" where
  "elimination_solve a b =
     (if \<not> list_all (\<lambda>row. length row = length (hd a)) a then Inl ValueError
      else if a = [] \<or> length (hd a) \<noteq> length a then Inl LinAlgError
      else if length b \<noteq> length a \<or> \<not> list_all (\<lambda>row. length row = length (hd b)) b
           then Inl ValueError
      else (case gauss (length a) (zip a b) of None \<Rightarrow> Inl LinAlgError | Some x \<Rightarrow> Inr x))"

definition exact_solve :: "rat list list \<Rightarrow> data \<Rightarrow> error + data" where
  \<comment> \<open>defined on populations only\<close>
  "exact_solve a b =
     (case b of
        Population p \<Rightarrow> map_sum id Population (elimination_solve a p)
      | _ \<Rightarrow> Inl TypeError)"

section \<open>Concrete inputs\<close>

text \<open>
  Two masks with ten repetitions and two sweep points. In both, column 0 has eight passing
  shots and column 1 has six. In \<open>scenario_mask\<close> the two lowest passing shots of column 0
  are shots 0 and 1; in \<open>herald_failed_first\<close> shot 0 of column 0 failed heralding.
\<close>

definition scenario_mask :: ndarray where
  "scenario_mask = \<lparr>n_cols = 2, rows =
     [[0, 0], [0, 1], [0, 0], [0, 0], [1, 1], [0, 0], [0, 1], [1, 0], [0, 1], [0, 0]]\<rparr>"

definition herald_failed_first :: ndarray where
  "herald_failed_first = \<lparr>n_cols = 2, rows =
     [[1, 0], [0, 1], [0, 0], [0, 0], [0, 1], [1, 0], [0, 1], [0, 0], [0, 1], [0, 0]]\<rparr>"

text \<open>
  One resonator with two readout levels, two repetitions and one sweep point. The helpers
  classify both shots as level 0, so the observed population is \<open>(1, 0)\<close>, and the solver is
  the exact one. The rows of \<open>corr_matrix\<close> sum to one; the solution of
  \<open>corr_matrix \<cdot> x = (1, 0)\<close> is \<open>(8/7, -2/7)\<close>, of which a floating-point solver returns
  the rounding, and the solution of the transposed system is \<open>(8/7, -1/7)\<close>.
\<close>

definition example_helpers :: helpers where
  "example_helpers =
     \<lparr>rotate_IQ = (\<lambda>x angle. Inr x),
      gmm_predict = (\<lambda>x means covariances. Inr (Labels \<lparr>n_cols = 1, rows = [[0], [0]]\<rparr>)),
      normalize_population = (\<lambda>x n_levels mask. Inr (Population [[1], [0]])),
      autorotate_IQ = (\<lambda>x n_components. Inr x),
      np_mean_axis1 = (\<lambda>x. Inr x),
      np_linalg_solve = exact_solve\<rparr>"

definition example_channel :: channel where
  "example_channel =
     \<lparr>IQ_rotation_angle = 0, IQ_means = [[0, 0], [1, 1]], IQ_covariances = [1, 1],
      corr_matrix = [[9 / 10, 1 / 10], [2 / 10, 8 / 10]],
      readout_levels = [0, 1], n_readout_levels = 2\<rparr>"

definition example_batch :: measurement_dict where
  "example_batch =
     [(''R0'', [''Heterodyned_readout'' \<mapsto> IQ [[1], [1]],
               ''Heterodyned_heralding'' \<mapsto> IQ [[1], [1]]])]"

definition example_manager :: process_manager where
  "example_manager =
     \<lparr>customized = False, heralding = False, classification = True,
      resonators = [''R0''], config_dict = [(''R0'', example_channel)],
      yaml_file = [(''R0'', example_channel)],
      measurement = Some example_batch, stdout = []\<rparr>"

text \<open>The same manager with the all-ones matrix, which is singular.\<close>

definition singular_manager :: process_manager where
  "singular_manager =
     example_manager\<lparr>config_dict := [(''R0'', example_channel\<lparr>corr_matrix := [[1, 1], [1, 1]]\<rparr>)]\<rparr>"

text \<open>
  Two resonators with the same raw data: \<open>R0\<close> has the matrix of \<open>example_channel\<close>, \<open>R1\<close>
  the all-ones matrix.
\<close>

definition two_channel_manager :: process_manager where
  "two_channel_manager =
     example_manager
       \<lparr>resonators := [''R0'', ''R1''],
        config_dict := [(''R0'', example_channel),
                        (''R1'', example_channel\<lparr>corr_matrix := [[1, 1], [1, 1]]\<rparr>)],
        measurement :=
          Some [(''R0'', [''Heterodyned_readout'' \<mapsto> IQ [[1], [1]]]),
                (''R1'', [''Heterodyned_readout'' \<mapsto> IQ [[1], [1]]])]\<rparr>"

text \<open>
  A configuration in which \<open>R1\<close> has three readout levels but matrices for two, while \<open>R0\<close>
  is consistent.
\<close>

definition mismatched_manager :: process_manager where
  "mismatched_manager =
     example_manager
       \<lparr>resonators := [''R0'', ''R1''],
        config_dict := [(''R0'', example_channel),
                        (''R1'', example_channel\<lparr>readout_levels := [0, 1, 2]\<rparr>)]\<rparr>"

text \<open>A variable configuration with one qubit, one resonator and one further key.\<close>

definition example_variables :: variable_manager where
  "example_variables =
     \<lparr>qubits = [], resonator_names = [],
      variables =
        [(''Q0'', Qubit \<lparr>qubit_LO = 5000, qubit_module = 2, qubit_sequencer = 0, qubit_out = 0,
             qubit_items =
               [(''01'', Subspace \<lparr>freq = 5100, mod_freq = None, anharmonicity = None\<rparr>),
                (''12'', Subspace \<lparr>freq = 4900, mod_freq = None, anharmonicity = None\<rparr>),
                (''pi_amp'', Leaf)]\<rparr>),
         (''R0'', Resonator \<lparr>resonator_freq = 6100, resonator_LO = 6000, resonator_module = 4,
             resonator_sequencer = 0, resonator_mod_freq = None,
             resonator_readout_levels = [2, 0, 1], lowest_readout_levels = None,
             highest_readout_levels = None, resonator_n_readout_levels = None\<rparr>),
         (''common'', Other)]\<rparr>"


text \<open>The configuration that \<open>load\<close> leaves when it starts from \<open>example_variables\<close>.\<close>

definition loaded_variables :: variable_manager where
  "loaded_variables =
     \<lparr>qubits = [''Q0''], resonator_names = [''R0''],
      variables =
        [(''Q0'', Qubit \<lparr>qubit_LO = 5000, qubit_module = 2, qubit_sequencer = 0, qubit_out = 0,
             qubit_items =
               [(''01'', Subspace \<lparr>freq = 5100, mod_freq = Some 100, anharmonicity = None\<rparr>),
                (''12'', Subspace \<lparr>freq = 4900, mod_freq = Some (- 100),
                                  anharmonicity = Some (- 200)\<rparr>),
                (''pi_amp'', Leaf)]\<rparr>),
         (''R0'', Resonator \<lparr>resonator_freq = 6100, resonator_LO = 6000, resonator_module = 4,
             resonator_sequencer = 0, resonator_mod_freq = Some 100,
             resonator_readout_levels = [0, 1, 2], lowest_readout_levels = Some 0,
             highest_readout_levels = Some 2, resonator_n_readout_levels = Some 3\<rparr>),
         (''common'', Other)]\<rparr>"

section \<open>Properties of the truncation step\<close>

lemma length_overwrite [simp]: "length (overwrite j k x v) = length v"
  by (simp add: overwrite_def)

lemma nth_overwrite:
  "n < length v \<Longrightarrow> overwrite j k x v ! n = (if j \<le> n \<and> n < k then x else v ! n)"
  by (simp add: overwrite_def nth_enumerate_eq)

lemma overwrite_take_drop:
  assumes "j \<le> k" "k \<le> length v"
  shows "overwrite j k x v = take j v @ replicate (k - j) x @ drop k v"
proof (rule nth_equalityI)
  show "length (overwrite j k x v) = length (take j v @ replicate (k - j) x @ drop k v)"
    using assms by simp
next
  fix n assume "n < length (overwrite j k x v)"
  then have n: "n < length v" by simp
  show "overwrite j k x v ! n = (take j v @ replicate (k - j) x @ drop k v) ! n"
    using assms n by (auto simp: nth_overwrite nth_append)
qed

lemma count_zero_append [simp]: "count_zero (xs @ ys) = count_zero xs + count_zero ys"
  by (simp add: count_zero_def)

lemma count_zero_replicate_neg [simp]: "count_zero (replicate n (- 1)) = 0"
  by (simp add: count_zero_def)

lemma count_zero_le_length: "count_zero xs \<le> length xs"
  by (simp add: count_zero_def)

lemma count_zero_full: "count_zero xs = length xs \<Longrightarrow> x \<in> set xs \<Longrightarrow> x = 0"
  unfolding count_zero_def
  by (metis (mono_tags, lifting) filter_id_conv length_filter_less less_irrefl_nat  )

lemma count_zero_take_drop: "count_zero (take n xs) + count_zero (drop n xs) = count_zero xs"
  by (metis append_take_drop_id count_zero_append)

lemma n_cols_assign_slice [simp]: "n_cols (assign_slice a j k i x) = n_cols a"
  by (simp add: assign_slice_def)

lemma length_rows_assign_slice [simp]: "length (rows (assign_slice a j k i x)) = length (rows a)"
  by (simp add: assign_slice_def)

lemma wf_assign_slice: "wf_array a \<Longrightarrow> wf_array (assign_slice a j k i x)"
  by (auto simp: wf_array_def assign_slice_def list_all_iff in_set_enumerate_eq)

lemma column_assign_slice_same:
  assumes "wf_array a" "i < n_cols a"
  shows "column (assign_slice a j k i x) i = overwrite j k x (column a i)"
proof (rule nth_equalityI)
  show "length (column (assign_slice a j k i x) i) = length (overwrite j k x (column a i))"
    by (simp add: column_def)
next
  fix n assume "n < length (column (assign_slice a j k i x) i)"
  then have n: "n < length (rows a)" by (simp add: column_def)
  then have "length (rows a ! n) = n_cols a"
    using assms(1) by (simp add: wf_array_def list_all_length)
  then show "column (assign_slice a j k i x) i ! n = overwrite j k x (column a i) ! n"
    using n assms(2)
    by (simp add: column_def assign_slice_def nth_overwrite nth_enumerate_eq)
qed

lemma column_assign_slice_other:
  "i' \<noteq> i \<Longrightarrow> column (assign_slice a j k i x) i' = column a i'"
  by (rule nth_equalityI) (simp_all add: column_def assign_slice_def nth_enumerate_eq)

lemma length_column [simp]: "length (column a i) = length (rows a)"
  by (simp add: column_def)

lemma truncate_while_spec:
  assumes "wf_array a" "i < n_cols a" "j \<le> length (rows a)"
    "count_zero (take j (column a i)) = 0"
  shows "\<exists>k a'. truncate_while m i j a = Some a' \<and> j \<le> k \<and> k \<le> length (rows a)
           \<and> wf_array a' \<and> n_cols a' = n_cols a \<and> length (rows a') = length (rows a)
           \<and> column a' i = take j (column a i) @ replicate (k - j) (- 1) @ drop k (column a i)
           \<and> (\<forall>i'. i' \<noteq> i \<longrightarrow> column a' i' = column a i')
           \<and> count_zero (column a' i) = min (count_zero (column a i)) m
           \<and> (j < k \<longrightarrow> column a i ! (k - 1) = 0)"
  using assms
proof (induction "length (rows a) - j" arbitrary: j a rule: less_induct)
  case less
  let ?col = "column a i"
  let ?c = "count_zero ?col"
  show ?case
  proof (cases "m < ?c")
    case False
    then have "truncate_while m i j a = Some a"
      by (subst truncate_while.simps) simp
    with False less.prems show ?thesis
      by (intro exI[of _ j] exI[of _ a]) simp
  next
    case True
    define n where "n = ?c - m"
    define a1 where "a1 = assign_slice a j (j + n) i (- 1)"
    have n_pos: "0 < n" using True by (simp add: n_def)
    have c_drop: "count_zero (drop j ?col) = ?c"
      using count_zero_take_drop[of j ?col] less.prems(4) by simp
    have "?c \<le> length (drop j ?col)"
      using count_zero_le_length[of "drop j ?col"] c_drop by simp
    then have jn: "j + n \<le> length (rows a)"
      using less.prems(3) by (simp add: n_def)
    have col1o: "column a1 i = overwrite j (j + n) (- 1) ?col"
      unfolding a1_def using less.prems(1,2) by (simp add: column_assign_slice_same)
    have col1: "column a1 i = take j ?col @ replicate n (- 1) @ drop (j + n) ?col"
      using jn by (simp add: col1o overwrite_take_drop)
    have unfold: "truncate_while m i j a = truncate_while m i (j + n) a1"
      using True by (subst truncate_while.simps) (simp add: n_def a1_def)
    have take1: "take (j + n) (column a1 i) = take j ?col @ replicate n (- 1)"
      using jn by (simp add: col1)
    have drop1: "\<And>k. j + n \<le> k \<Longrightarrow> drop k (column a1 i) = drop k ?col"
      using jn by (simp add: col1)
    have inv1: "count_zero (take (j + n) (column a1 i)) = 0"
      using less.prems(4) by (simp add: take1)
    have seg: "count_zero (take n (drop j ?col)) + count_zero (drop (j + n) ?col) = ?c"
      using count_zero_take_drop[of n "drop j ?col"] c_drop by (simp add: add.commute)
    have c1: "count_zero (column a1 i) = count_zero (drop (j + n) ?col)"
      using less.prems(4) by (simp add: col1)
    have seg_le: "count_zero (take n (drop j ?col)) \<le> n"
      using count_zero_le_length[of "take n (drop j ?col)"] by simp
    have c1_ge: "m \<le> count_zero (column a1 i)"
      using seg seg_le c1 True n_def by linarith
    have "length (rows a1) - (j + n) < length (rows a) - j"
      using n_pos jn by (simp add: a1_def)
    moreover have "wf_array a1" "i < n_cols a1" "j + n \<le> length (rows a1)"
      using less.prems jn by (simp_all add: a1_def wf_assign_slice)
    ultimately obtain k a' where
      res: "truncate_while m i (j + n) a1 = Some a'" and
      k: "j + n \<le> k" "k \<le> length (rows a1)" and
      shape: "wf_array a'" "n_cols a' = n_cols a1" "length (rows a') = length (rows a1)" and
      col': "column a' i = take (j + n) (column a1 i) @ replicate (k - (j + n)) (- 1)
                            @ drop k (column a1 i)" and
      others: "\<forall>i'. i' \<noteq> i \<longrightarrow> column a' i' = column a1 i'" and
      cnt: "count_zero (column a' i) = min (count_zero (column a1 i)) m" and
      last: "j + n < k \<longrightarrow> column a1 i ! (k - 1) = 0"
      using less.hyps[of a1 "j + n"] inv1 by blast
    have rep: "replicate n (- 1 :: int) @ replicate (k - (j + n)) (- 1) = replicate (k - j) (- 1)"
      using k(1) by (simp add: replicate_add[symmetric])
    have col'': "column a' i = take j ?col @ replicate (k - j) (- 1) @ drop k ?col"
      using k(1) rep by (simp add: col' take1 drop1)
    have cnt': "count_zero (column a' i) = min ?c m"
      using cnt c1_ge True by simp
    have last': "?col ! (k - 1) = 0"
    proof (cases "j + n < k")
      case True
      with last have "column a1 i ! (k - 1) = 0" by simp
      moreover have "column a1 i ! (k - 1) = ?col ! (k - 1)"
      proof -
        have "length (rows a1) = length (rows a)" by (simp add: a1_def)
        with True k(2) have "k - 1 < length ?col" "\<not> k - 1 < j + n" by simp_all
        then show ?thesis unfolding col1o by (simp add: nth_overwrite)
      qed
      ultimately show ?thesis by simp
    next
      case False
      with k(1) have keq: "k = j + n" by simp
      then have "column a' i = column a1 i" by (simp add: col' )
      then have "count_zero (column a1 i) = m" using cnt c1_ge by simp
      then have "count_zero (take n (drop j ?col)) = n"
        using seg c1 True n_def by linarith
      moreover have "length (take n (drop j ?col)) = n" using jn by simp
      moreover have "take n (drop j ?col) ! (n - 1) \<in> set (take n (drop j ?col))"
        using n_pos jn by (intro nth_mem) simp
      ultimately have "take n (drop j ?col) ! (n - 1) = 0"
        using count_zero_full[of "take n (drop j ?col)"] by simp
      then show ?thesis using n_pos jn keq by simp
    qed
    show ?thesis
      using res unfold k shape col'' others cnt' last' 
      by (intro exI[of _ k] exI[of _ a']) (simp add: a1_def column_assign_slice_other)
  qed
qed

text \<open>
  Claim C1, as the code has it. For a column \<open>i\<close> whose passing count exceeds
  \<open>n_pass_min\<close>, the \<open>while\<close> loop ends and has set the first \<open>k\<close> rows of the column to
  \<open>-1\<close>, passing and failed entries alike, where \<open>k\<close> is the least number of leading rows
  that contain \<open>passing_count - n_pass_min\<close> passing entries: the block holds that many
  passes and its last row is a pass. The rows from \<open>k\<close> on and the other columns are
  unchanged. When the first \<open>passing_count - n_pass_min\<close> rows all pass, exactly these rows
  are overwritten, which is the case of Scenario B.
\<close>

theorem truncation_overwrites_leading_rows:
  assumes "wf_array a" and "i < n_cols a" and "n_pass_min < count_zero (column a i)"
  shows "\<exists>k a'. truncate_while n_pass_min i 0 a = Some a'
           \<and> 0 < k \<and> k \<le> length (rows a)
           \<and> column a' i = replicate k (- 1) @ drop k (column a i)
           \<and> count_zero (take k (column a i)) = count_zero (column a i) - n_pass_min
           \<and> column a i ! (k - 1) = 0
           \<and> (count_zero (take (count_zero (column a i) - n_pass_min) (column a i))
                 = count_zero (column a i) - n_pass_min
               \<longrightarrow> k = count_zero (column a i) - n_pass_min)
           \<and> (\<forall>i'. i' \<noteq> i \<longrightarrow> column a' i' = column a i')"
proof -
  let ?col = "column a i"
  let ?d = "count_zero ?col - n_pass_min"
  obtain k a' where
    res: "truncate_while n_pass_min i 0 a = Some a'" and
    k: "k \<le> length (rows a)" and
    col': "column a' i = take 0 ?col @ replicate (k - 0) (- 1) @ drop k ?col" and
    others: "\<forall>i'. i' \<noteq> i \<longrightarrow> column a' i' = column a i'" and
    cnt: "count_zero (column a' i) = min (count_zero ?col) n_pass_min" and
    last: "0 < k \<longrightarrow> ?col ! (k - 1) = 0"
  proof -
    have "0 \<le> length (rows a)" and "count_zero (take 0 ?col) = 0"
      by (simp_all add: count_zero_def)
    from truncate_while_spec[OF assms(1,2) this, of n_pass_min] that show ?thesis
      by blast
  qed
  have col'': "column a' i = replicate k (- 1) @ drop k ?col" using col' by simp
  have "count_zero (drop k ?col) = n_pass_min"
    using cnt assms(3) by (simp add: col'')
  then have takek: "count_zero (take k ?col) = ?d"
    using count_zero_take_drop[of k ?col] by simp
  have kpos: "0 < k"
  proof (rule ccontr)
    assume "\<not> 0 < k"
    then have "count_zero (take k ?col) = 0" by (simp add: count_zero_def)
    with takek assms(3) show False by simp
  qed
  have kd: "?d \<le> k"
    using count_zero_le_length[of "take k ?col"] takek by simp
  have exact: "k = ?d" if full: "count_zero (take ?d ?col) = ?d"
  proof (rule ccontr)
    assume "k \<noteq> ?d"
    with kd have lt: "?d < k" by simp
    have split: "take k ?col = take ?d ?col @ drop ?d (take k ?col)"
      by (metis append_take_drop_id kd min.absorb1 take_take)
    have "count_zero (take k ?col) = count_zero (take ?d ?col) + count_zero (drop ?d (take k ?col))"
      by (subst split) simp
    with takek full have none: "count_zero (drop ?d (take k ?col)) = 0" by simp
    have "drop ?d (take k ?col) ! (k - 1 - ?d) = ?col ! (k - 1)"
      using lt k by simp
    moreover have "k - 1 - ?d < length (drop ?d (take k ?col))"
      using lt k by simp
    ultimately have "?col ! (k - 1) \<in> set (drop ?d (take k ?col))"
      by (metis nth_mem)
    with last kpos have "0 \<in> set (drop ?d (take k ?col))" by simp
    then have "filter (\<lambda>x. x = 0) (drop ?d (take k ?col)) \<noteq> []"
      by (simp add: filter_empty_conv)
    with none show False by (simp add: count_zero_def)
  qed
  show ?thesis
    using res kpos k col'' takek last others exact
    by (intro exI[of _ k] exI[of _ a']) simp
qed

theorem truncation_overwrites_leading_rows_witness:
  "wf_array scenario_mask \<and> 0 < n_cols scenario_mask
   \<and> 6 < count_zero (column scenario_mask 0)
   \<and> (\<exists>a'. truncate_while 6 0 0 scenario_mask = Some a'
         \<and> column a' 0 = replicate 2 (- 1) @ drop 2 (column scenario_mask 0)
         \<and> column a' 1 = column scenario_mask 1)"
proof -
  have h1: "wf_array scenario_mask" by code_simp
  have h2: "0 < n_cols scenario_mask" by code_simp
  have h3: "6 < count_zero (column scenario_mask 0)" by code_simp
  have d: "count_zero (column scenario_mask 0) - 6 = 2" by code_simp
  have f: "count_zero (take 2 (column scenario_mask 0)) = 2" by code_simp
  from truncation_overwrites_leading_rows[OF h1 h2 h3] obtain k a' where
    r: "truncate_while 6 0 0 scenario_mask = Some a'"
      "column a' 0 = replicate k (- 1) @ drop k (column scenario_mask 0)"
      "count_zero (take (count_zero (column scenario_mask 0) - 6) (column scenario_mask 0))
         = count_zero (column scenario_mask 0) - 6
       \<longrightarrow> k = count_zero (column scenario_mask 0) - 6"
      "\<forall>i'. i' \<noteq> 0 \<longrightarrow> column a' i' = column scenario_mask i'"
    by blast
  from r(3) d f have "k = 2" by simp
  with r h1 h2 h3 show ?thesis by auto
qed

text \<open>
  Claim C1, as stated, fails. In \<open>herald_failed_first\<close> column 0 has eight passing shots
  and \<open>n_pass_min\<close> is six, yet three entries of column 0 are overwritten, not two, and
  the first of them is shot 0, which had failed heralding (value 1).
\<close>

theorem truncation_overwrites_failed_shot:
  "count_zero (column herald_failed_first 0) = 8
   \<and> np_min (pass_counts herald_failed_first) = Inr 6
   \<and> truncate_mask herald_failed_first = Some (Inr \<lparr>n_cols = 2, rows =
        [[- 1, 0], [- 1, 1], [- 1, 0], [0, 0], [0, 1], [1, 0], [0, 1], [0, 0], [0, 1], [0, 0]]\<rparr>)
   \<and> column herald_failed_first 0 ! 0 = 1
   \<and> overwritten (column herald_failed_first 0)
        (column (projr (the (truncate_mask herald_failed_first))) 0) = [0, 1, 2]"
  by code_simp

text \<open>
  Lines 153 to 161 on their own: on a well-formed mask with at least one sweep point the
  loops end, and every column is left with exactly \<open>n_pass_min\<close> passing entries, the
  least passing count of the mask they started from.
\<close>

lemma truncate_columns_spec:
  assumes "wf_array a" and "\<forall>i\<in>set cols. i < n_cols a"
  shows "\<exists>a'. truncate_columns m cols a = Some a' \<and> wf_array a' \<and> n_cols a' = n_cols a
           \<and> length (rows a') = length (rows a)
           \<and> (\<forall>i. count_zero (column a' i)
                  = (if i \<in> set cols then min (count_zero (column a i)) m
                     else count_zero (column a i)))"
  using assms
proof (induction cols arbitrary: a)
  case Nil
  then show ?case by simp
next
  case (Cons i0 cols)
  have "0 \<le> length (rows a)" and "count_zero (take 0 (column a i0)) = 0"
    by (simp_all add: count_zero_def)
  from truncate_while_spec[OF Cons.prems(1) _ this, of m] Cons.prems(2)
  obtain a1 where
    a1: "truncate_while m i0 0 a = Some a1" "wf_array a1" "n_cols a1 = n_cols a"
      "length (rows a1) = length (rows a)"
      "\<forall>i'. i' \<noteq> i0 \<longrightarrow> column a1 i' = column a i'"
      "count_zero (column a1 i0) = min (count_zero (column a i0)) m"
    by auto
  from Cons.IH[of a1] a1 Cons.prems(2)
  obtain a' where
    a': "truncate_columns m cols a1 = Some a'" "wf_array a'" "n_cols a' = n_cols a1"
      "length (rows a') = length (rows a1)"
      "\<forall>i. count_zero (column a' i)
            = (if i \<in> set cols then min (count_zero (column a1 i)) m
               else count_zero (column a1 i))"
    by auto
  have "count_zero (column a' i)
          = (if i \<in> set (i0 # cols) then min (count_zero (column a i)) m
             else count_zero (column a i))" for i
    using a'(5) a1(5,6) by (cases "i = i0") auto
  with a1 a' show ?case by simp
qed

lemma np_min_pass_counts:
  assumes "0 < n_cols a"
  shows "\<exists>m. np_min (pass_counts a) = Inr m
           \<and> (\<forall>i<n_cols a. m \<le> count_zero (column a i))
           \<and> (\<exists>i<n_cols a. m = count_zero (column a i))"
proof -
  from assms obtain c cs where pc: "pass_counts a = c # cs"
    by (cases "pass_counts a") (auto simp: pass_counts_def)
  let ?m = "Min (set (c # cs))"
  have m: "np_min (pass_counts a) = Inr ?m"
    unfolding np_min_def pc by (simp only: list.case Min.set_eq_fold)
  have set_eq: "set (c # cs) = (\<lambda>i. count_zero (column a i)) ` {..<n_cols a}"
    unfolding pc[symmetric] pass_counts_def by (auto simp: atLeast0LessThan)
  have "\<forall>i<n_cols a. ?m \<le> count_zero (column a i)"
    unfolding set_eq by (auto intro: Min_le)
  moreover have "?m \<in> set (c # cs)" by (rule Min_in) simp_all
  then have "\<exists>i<n_cols a. ?m = count_zero (column a i)"
    unfolding set_eq by auto
  ultimately show ?thesis using m by blast
qed

lemma truncate_mask_balanced:
  assumes "wf_array a" and "0 < n_cols a"
  shows "\<exists>m a'. np_min (pass_counts a) = Inr m \<and> truncate_mask a = Some (Inr a')
           \<and> (\<forall>i<n_cols a. m \<le> count_zero (column a i))
           \<and> (\<exists>i<n_cols a. m = count_zero (column a i))
           \<and> (\<forall>i<n_cols a. count_zero (column a' i) = m)"
proof -
  from np_min_pass_counts[OF assms(2)] obtain m where
    m: "np_min (pass_counts a) = Inr m" "\<forall>i<n_cols a. m \<le> count_zero (column a i)"
      "\<exists>i<n_cols a. m = count_zero (column a i)"
    by blast
  from truncate_columns_spec[OF assms(1), of "[0..<n_cols a]" m]
  obtain a' where
    a': "truncate_columns m [0..<n_cols a] a = Some a'"
      "\<forall>i. count_zero (column a' i)
            = (if i \<in> set [0..<n_cols a] then min (count_zero (column a i)) m
               else count_zero (column a i))"
    by auto
  have "truncate_mask a = Some (Inr a')"
    by (simp add: truncate_mask_def m(1) a'(1))
  moreover have "\<forall>i<n_cols a. count_zero (column a' i) = m"
    using a'(2) m(2) by (auto simp: min_def)
  ultimately show ?thesis using m by blast
qed


section \<open>Properties of \<open>heralding_test\<close> and of the dispatch\<close>

lemma heralding_test_TypeError:
  "measurement s = Some meas \<Longrightarrow> heralding_test s = Some (Inl TypeError)"
  by (simp add: heralding_test_def keys_view_getitem_def)

lemma assign_keeps:
  assumes "key \<noteq> k" and "\<And>d. fst (rest d) k = d k"
  shows "fst (assign key rhs rest d) k = d k"
  using assms by (simp add: assign_def split: sum.splits)

lemma finish_keeps: "fst (finish d) k = d k"
  by (simp add: finish_def)

lemma for_items_keeps:
  assumes "\<And>r d. fst (body r d) k = d k"
  shows "list_all2 (\<lambda>x y. fst y = fst x \<and> snd y k = snd x k) meas (fst (for_items body meas))"
proof (induction meas)
  case Nil
  show ?case by simp
next
  case (Cons x meas)
  obtain r d where x: "x = (r, d)" by (cases x)
  obtain d' res where b: "body r d = (d', res)" by (cases "body r d")
  have d': "d' k = d k" using assms[of r d] b by simp
  show ?case
  proof (cases res)
    case None
    with x b d' Cons.IH show ?thesis by (auto split: prod.splits)
  next
    case (Some e)
    have "list_all2 (\<lambda>x y. fst y = fst x \<and> snd y k = snd x k) meas meas"
      by (simp add: list_all2_same)
    with Some x b d' show ?thesis by simp
  qed
qed

lemma heralding_first_keeps:
  assumes "k \<notin> {''IQrotated_readout'', ''IQrotated_heralding'', ''GMMpredicted_readout'',
                ''GMMpredicted_heralding''}"
  shows "fst (heralding_first h s r d) k = d k"
  unfolding heralding_first_def using assms
  by (intro assign_keeps finish_keeps) auto

text \<open>
  Claim C4. Whatever the batch, \<open>heralding_test\<close> raises \<open>TypeError\<close> at \<open>resonators[0]\<close>.
  Hence the heralding routine, and with it every call of \<open>process_data\<close> that takes the
  heralding branch, ends with an exception and leaves, for every resonator, the keys
  \<open>Mask_heralding\<close>, \<open>PopulationNormalized_readout\<close>, \<open>PopulationCorrected_readout\<close> and
  \<open>to_fit\<close> as they were before the call.
\<close>

theorem heralding_routine_always_raises:
  assumes "measurement s = Some meas"
  shows "heralding_test s = Some (Inl TypeError)
       \<and> (\<exists>meas' e. heralding_routine h s = Some (s\<lparr>measurement := Some meas'\<rparr>, Some e)
             \<and> (\<not> customized s \<and> heralding s \<longrightarrow>
                   process_data h s measurement_arg fitmodel
                     = Some (s\<lparr>measurement := Some meas'\<rparr>, Some e))
             \<and> map fst meas' = map fst meas
             \<and> (\<forall>n<length meas. \<forall>key\<in>result_keys. snd (meas' ! n) key = snd (meas ! n) key))"
proof -
  obtain meas' res where fi: "for_items (heralding_first h s) meas = (meas', res)"
    by (cases "for_items (heralding_first h s) meas")
  have frame: "list_all2 (\<lambda>x y. fst y = fst x \<and> snd y key = snd x key) meas meas'"
    if "key \<in> result_keys" for key
  proof -
    have "fst (heralding_first h s r d) key = d key" for r d
      using that by (intro heralding_first_keeps) (auto simp: result_keys_def)
    from for_items_keeps[of "heralding_first h s" key meas, OF this] fi show ?thesis by simp
  qed
  have names: "map fst meas' = map fst meas"
    using frame[of "''to_fit''"]
    by (auto simp: result_keys_def list_all2_conv_all_nth intro: nth_equalityI)
  have keys: "\<forall>n<length meas. \<forall>key\<in>result_keys. snd (meas' ! n) key = snd (meas ! n) key"
    using frame by (auto simp: list_all2_conv_all_nth)
  have run: "run_items (heralding_first h s) s = (s\<lparr>measurement := Some meas'\<rparr>, res)"
    by (simp add: run_items_def assms fi)
  have "\<exists>e. heralding_routine h s = Some (s\<lparr>measurement := Some meas'\<rparr>, Some e)"
  proof (cases res)
    case None
    have "heralding_test (s\<lparr>measurement := Some meas'\<rparr>) = Some (Inl TypeError)"
      by (rule heralding_test_TypeError) simp
    with None run show ?thesis by (simp add: heralding_routine_def)
  next
    case (Some e)
    with run show ?thesis by (simp add: heralding_routine_def)
  qed
  then obtain e where e: "heralding_routine h s = Some (s\<lparr>measurement := Some meas'\<rparr>, Some e)"
    by blast
  have "\<not> customized s \<and> heralding s \<longrightarrow>
          process_data h s measurement_arg fitmodel = Some (s\<lparr>measurement := Some meas'\<rparr>, Some e)"
    using e by (simp add: process_data_def)
  with e names keys heralding_test_TypeError[OF assms] show ?thesis by blast
qed

theorem heralding_routine_always_raises_witness:
  "measurement (example_manager\<lparr>heralding := True\<rparr>) = Some example_batch
   \<and> heralding_test (example_manager\<lparr>heralding := True\<rparr>) = Some (Inl TypeError)
   \<and> (\<exists>meas' e. process_data example_helpers (example_manager\<lparr>heralding := True\<rparr>) [] ()
                    = Some (example_manager\<lparr>heralding := True, measurement := Some meas'\<rparr>, Some e)
          \<and> map fst meas' = map fst example_batch
          \<and> (\<forall>n<length example_batch. \<forall>key\<in>result_keys.
                 snd (meas' ! n) key = snd (example_batch ! n) key))"
proof -
  let ?s = "example_manager\<lparr>heralding := True\<rparr>"
  have h: "measurement ?s = Some example_batch"
    by (simp add: example_manager_def)
  have flags: "\<not> customized ?s \<and> heralding ?s"
    by (simp add: example_manager_def)
  from heralding_routine_always_raises[OF h, of example_helpers "[]" "()"] flags
  obtain meas' e where
    "heralding_test ?s = Some (Inl TypeError)"
    "process_data example_helpers ?s [] () = Some (?s\<lparr>measurement := Some meas'\<rparr>, Some e)"
    "map fst meas' = map fst example_batch"
    "\<forall>n<length example_batch. \<forall>key\<in>result_keys.
        snd (meas' ! n) key = snd (example_batch ! n) key"
    by blast
  with h show ?thesis by auto
qed

text \<open>
  Claim C8. On a batch without channels \<open>heralding_test\<close> raises, and so does the
  heralding routine of \<open>process_data\<close>; no mask is returned.
\<close>

theorem heralding_test_no_channels:
  "heralding_test (s\<lparr>measurement := Some []\<rparr>) = Some (Inl TypeError)
   \<and> process_data h (s\<lparr>customized := False, heralding := True, measurement := Some []\<rparr>)
        measurement_arg fitmodel
      = Some (s\<lparr>customized := False, heralding := True, measurement := Some []\<rparr>, Some TypeError)"
  by (simp add: process_data_def heralding_routine_def run_items_def heralding_test_def
      keys_view_getitem_def)

text \<open>
  Claim C2 at a batch with one channel, two repetitions and two sweep points: the call
  raises \<open>TypeError\<close> and returns no mask, although the statements after \<open>resonators[0]\<close>,
  given the first key, would return the mask in which both columns have one passing shot.
\<close>

theorem heralding_test_single_channel:
  "heralding_test
     (s\<lparr>measurement :=
          Some [(''R0'', [''GMMpredicted_heralding'' \<mapsto> Labels \<lparr>n_cols = 2, rows = [[0, 0], [0, 1]]\<rparr>])]\<rparr>)
     = Some (Inl TypeError)
   \<and> build_heralding_mask
       [(''R0'', [''GMMpredicted_heralding'' \<mapsto> Labels \<lparr>n_cols = 2, rows = [[0, 0], [0, 1]]\<rparr>])]
       [''R0''] ''R0''
     = Some (Inr \<lparr>n_cols = 2, rows = [[- 1, 0], [0, 1]]\<rparr>)"
proof -
  let ?a = "\<lparr>n_cols = 2, rows = [[0, 0], [0, 1]]\<rparr>"
  have or: "bitwise_or (zeros_like ?a) ?a = Inr ?a"
    by code_simp
  have tr: "truncate_mask ?a = Some (Inr \<lparr>n_cols = 2, rows = [[- 1, 0], [0, 1]]\<rparr>)"
    by code_simp
  show ?thesis
    by (simp add: heralding_test_def keys_view_getitem_def build_heralding_mask_def
        heralding_labels_def measurement_getitem_def getitem_def bind_err_def or tr)
qed

text \<open>
  Claim C5. \<open>process_data\<close> takes exactly one branch, in the order customized, heralding,
  classification, bare: with \<open>customized\<close> set nothing runs and the state is returned as
  it is, whatever the other flags; otherwise the first flag that is set selects the
  routine, and the bare routine runs when none is set.
\<close>

theorem process_data_dispatch:
  "(customized s \<longrightarrow> process_data h s measurement_arg fitmodel = Some (s, None))
   \<and> (\<not> customized s \<and> heralding s \<longrightarrow>
        process_data h s measurement_arg fitmodel = heralding_routine h s)
   \<and> (\<not> customized s \<and> \<not> heralding s \<and> classification s \<longrightarrow>
        process_data h s measurement_arg fitmodel = Some (classification_routine h s))
   \<and> (\<not> customized s \<and> \<not> heralding s \<and> \<not> classification s \<longrightarrow>
        process_data h s measurement_arg fitmodel = Some (bare_routine h s))"
  by (simp add: process_data_def)

theorem process_data_dispatch_witness:
  "customized (example_manager\<lparr>customized := True, heralding := True\<rparr>)
   \<and> process_data example_helpers (example_manager\<lparr>customized := True, heralding := True\<rparr>) [] ()
       = Some (example_manager\<lparr>customized := True, heralding := True\<rparr>, None)
   \<and> process_data example_helpers (example_manager\<lparr>heralding := True\<rparr>) [] ()
       = heralding_routine example_helpers (example_manager\<lparr>heralding := True\<rparr>)
   \<and> process_data example_helpers example_manager [] ()
       = Some (classification_routine example_helpers example_manager)
   \<and> process_data example_helpers (example_manager\<lparr>classification := False\<rparr>) [] ()
       = Some (bare_routine example_helpers (example_manager\<lparr>classification := False\<rparr>))"
  using process_data_dispatch[of "example_manager\<lparr>customized := True, heralding := True\<rparr>"
      example_helpers "[]" "()"]
    process_data_dispatch[of "example_manager\<lparr>heralding := True\<rparr>" example_helpers "[]" "()"]
    process_data_dispatch[of example_manager example_helpers "[]" "()"]
    process_data_dispatch[of "example_manager\<lparr>classification := False\<rparr>" example_helpers "[]" "()"]
  by (simp add: example_manager_def)

text \<open>
  Claim C9, as the code has it. The result of \<open>process_data\<close> does not depend on its
  \<open>measurement\<close> and \<open>fitmodel\<close> arguments, and the call raises \<open>AttributeError\<close> when
  \<open>self.measurement\<close> was never set and the \<open>customized\<close> flag is unset.
\<close>

theorem process_data_ignores_argument:
  "process_data h s measurement_1 fitmodel_1 = process_data h s measurement_2 fitmodel_2
   \<and> (measurement s = None \<and> \<not> customized s \<longrightarrow>
        process_data h s measurement_1 fitmodel_1 = Some (s, Some AttributeError))"
  by (simp add: process_data_def heralding_routine_def classification_routine_def
      bare_routine_def run_items_def)

theorem process_data_ignores_argument_witness:
  "measurement (example_manager\<lparr>measurement := None\<rparr>) = None
   \<and> \<not> customized (example_manager\<lparr>measurement := None\<rparr>)
   \<and> process_data example_helpers (example_manager\<lparr>measurement := None\<rparr>) [] ()
       = process_data example_helpers (example_manager\<lparr>measurement := None\<rparr>) example_batch True
   \<and> process_data example_helpers (example_manager\<lparr>measurement := None\<rparr>) [] ()
       = Some (example_manager\<lparr>measurement := None\<rparr>, Some AttributeError)"
proof -
  let ?s = "example_manager\<lparr>measurement := None\<rparr>"
  have h: "measurement ?s = None \<and> \<not> customized ?s"
    by (simp add: example_manager_def)
  from process_data_ignores_argument[of example_helpers ?s "[]" "()" example_batch True] h
  have "process_data example_helpers ?s [] () = process_data example_helpers ?s example_batch True"
    and "process_data example_helpers ?s [] () = Some (?s, Some AttributeError)"
    by blast+
  with h show ?thesis by blast
qed

text \<open>
  Claim C9, as stated, fails: with the \<open>customized\<close> flag set and \<open>self.measurement\<close>
  never set, the call returns without an exception.
\<close>

theorem customized_needs_no_measurement:
  "measurement (example_manager\<lparr>customized := True, measurement := None\<rparr>) = None
   \<and> process_data example_helpers (example_manager\<lparr>customized := True, measurement := None\<rparr>) [] ()
       = Some (example_manager\<lparr>customized := True, measurement := None\<rparr>, None)"
  by (simp add: process_data_def example_manager_def)


section \<open>Properties of the correction step\<close>

lemma for_items_append:
  assumes "for_items body pre = (pre', None)"
  shows "for_items body (pre @ rest)
           = (pre' @ fst (for_items body rest), snd (for_items body rest))"
  using assms
proof (induction pre arbitrary: pre')
  case Nil
  then show ?case by simp
next
  case (Cons x pre)
  obtain r d where x: "x = (r, d)" by (cases x)
  from Cons.prems x obtain d' tl' where
    b: "body r d = (d', None)" and t: "for_items body pre = (tl', None)" and p: "pre' = (r, d') # tl'"
    by (auto split: prod.splits option.splits)
  from Cons.IH[OF t] x b p show ?case by (simp split: prod.splits)
qed

lemma classification_body_success:
  assumes "classification_body h s r d = (d', None)"
  shows "\<exists>c obs x. config_getitem s r = Inr c
           \<and> d' ''PopulationNormalized_readout'' = Some obs
           \<and> np_linalg_solve h (corr_matrix c) obs = Inr x
           \<and> d' ''PopulationCorrected_readout'' = Some x
           \<and> d' ''to_fit'' = Some x"
  using assms
  unfolding classification_body_def assign_def finish_def corrected_def getitem_def bind_err_def
  by (auto split: sum.splits option.splits)

lemma pivot_split_length:
  "pivot_split es = Some (p, rest) \<Longrightarrow> Suc (length rest) = length es"
  by (induction es arbitrary: p rest) (auto split: if_splits option.splits)

lemma pivot_split_set:
  "pivot_split es = Some (p, rest) \<Longrightarrow> set es = insert p (set rest)"
  by (induction es arbitrary: p rest) (auto split: if_splits option.splits)

lemma pivot_split_pivot:
  "pivot_split es = Some (p, rest) \<Longrightarrow> fst p \<noteq> [] \<and> hd (fst p) \<noteq> 0"
  by (induction es arbitrary: p rest) (auto split: if_splits option.splits)

lemma dot_Cons [simp]: "dot (x # u) (y # v) = x * y + dot u v"
  by (simp add: dot_def)

lemma dot_Nil [simp]: "dot [] v = 0"
  by (simp add: dot_def)

lemma dot_Nil2 [simp]: "dot u [] = 0"
  by (simp add: dot_def)

lemma dot_vsub_smul:
  "length u = length v \<Longrightarrow> dot (vsub u (smul f v)) w = dot u w - f * dot v w"
proof (induction u v arbitrary: w rule: list_induct2)
  case Nil
  then show ?case by (simp add: vsub_def smul_def)
next
  case (Cons x u y v)
  show ?case
  proof (cases w)
    case Nil
    then show ?thesis by simp
  next
    case (Cons z w')
    have "vsub (x # u) (smul f (y # v)) = (x - f * y) # vsub u (smul f v)"
      by (simp add: vsub_def smul_def)
    then show ?thesis using Cons.IH[of w'] Cons by (simp add: algebra_simps)
  qed
qed

lemma col_Cons [simp]: "col (x # xs) k = x ! k # col xs k"
  by (simp add: col_def)

lemma length_vsub [simp]: "length (vsub u v) = min (length u) (length v)"
  by (simp add: vsub_def)

lemma length_smul [simp]: "length (smul c v) = length v"
  by (simp add: smul_def)

lemma length_lincomb [simp]: "length (lincomb K c x) = K"
  by (simp add: lincomb_def)

lemma nth_lincomb: "k < K \<Longrightarrow> lincomb K c x ! k = dot c (col x k)"
  by (simp add: lincomb_def)

lemma nth_vsub: "k < length u \<Longrightarrow> k < length v \<Longrightarrow> vsub u v ! k = u ! k - v ! k"
  by (simp add: vsub_def)

lemma nth_smul: "k < length v \<Longrightarrow> smul c v ! k = c * v ! k"
  by (simp add: smul_def)

lemma gauss_sound:
  assumes "gauss n es = Some xs" and "length es = n"
    and "\<forall>e\<in>set es. length (fst e) = n \<and> length (snd e) = K"
  shows "length xs = n \<and> (\<forall>e\<in>set es. \<forall>k<K. dot (fst e) (col xs k) = snd e ! k)"
  using assms
proof (induction n arbitrary: es xs)
  case 0
  then show ?case by simp
next
  case (Suc n)
  from Suc.prems(1) obtain p rest xs' where
    ps: "pivot_split es = Some (p, rest)" and
    g: "gauss n (map (eliminate p) rest) = Some xs'" and
    xs: "xs = back_substitute p xs' # xs'"
    by (auto split: option.splits)
  note len = pivot_split_length[OF ps] and sets = pivot_split_set[OF ps]
    and piv = pivot_split_pivot[OF ps]
  have p_in: "p \<in> set es" and rest_in: "set rest \<subseteq> set es" using sets by auto
  have plen: "length (fst p) = Suc n" "length (snd p) = K"
    using Suc.prems(3) p_in by auto
  have red: "\<forall>e\<in>set (map (eliminate p) rest). length (fst e) = n \<and> length (snd e) = K"
  proof
    fix e' assume "e' \<in> set (map (eliminate p) rest)"
    then obtain e where e: "e \<in> set rest" and e': "e' = eliminate p e" by auto
    from e rest_in Suc.prems(3) have "length (fst e) = Suc n" "length (snd e) = K" by auto
    with plen show "length (fst e') = n \<and> length (snd e') = K"
      by (simp add: e' eliminate_def)
  qed
  have lrest: "length (map (eliminate p) rest) = n" using len Suc.prems(2) by simp
  from Suc.IH[OF g lrest red] have
    lxs: "length xs' = n" and
    ih: "\<forall>e\<in>set rest. \<forall>k<K. dot (fst (eliminate p e)) (col xs' k) = snd (eliminate p e) ! k"
    by auto
  obtain a pc where pc: "fst p = a # pc" using piv by (cases "fst p") auto
  have a0: "a \<noteq> 0" using piv pc by simp
  have x1: "back_substitute p xs' ! k = inverse a * (snd p ! k - dot pc (col xs' k))"
    if "k < K" for k
    using that plen pc by (simp add: back_substitute_def nth_smul nth_vsub nth_lincomb)
  have pivot_row: "dot (fst p) (col xs k) = snd p ! k" if "k < K" for k
    using x1[OF that] a0 by (simp add: xs pc field_simps)
  have other_row: "dot (fst e) (col xs k) = snd e ! k" if e: "e \<in> set rest" and k: "k < K" for e k
  proof -
    have elen: "length (fst e) = Suc n" "length (snd e) = K"
      using Suc.prems(3) rest_in e by auto
    then obtain b ec where ec: "fst e = b # ec" by (cases "fst e") auto
    have lens: "length ec = length pc" using elen plen ec pc by simp
    have "dot (fst (eliminate p e)) (col xs' k) = snd (eliminate p e) ! k"
      using ih e k by blast
    then have "dot ec (col xs' k) - b / a * dot pc (col xs' k) = snd e ! k - b / a * snd p ! k"
      using lens elen plen k
      by (simp add: eliminate_def ec pc dot_vsub_smul nth_vsub nth_smul)
    then have "dot ec (col xs' k) = snd e ! k - b / a * (snd p ! k - dot pc (col xs' k))"
      by (simp add: algebra_simps)
    moreover have "snd p ! k - dot pc (col xs' k) = a * back_substitute p xs' ! k"
      using x1[OF k] a0 by simp
    ultimately have "dot ec (col xs' k) = snd e ! k - b / a * (a * back_substitute p xs' ! k)"
      by simp
    then have "dot ec (col xs' k) = snd e ! k - b * back_substitute p xs' ! k"
      using a0 by simp
    then show ?thesis
      by (simp add: xs ec)
  qed
  have "\<forall>e\<in>set es. \<forall>k<K. dot (fst e) (col xs k) = snd e ! k"
    using pivot_row other_row sets by auto
  moreover have "length xs = Suc n" using lxs xs by simp
  ultimately show ?case by simp
qed

lemma elimination_solve_sound:
  assumes "elimination_solve a b = Inr x"
  shows "mat_mul (length (hd b)) a x = b"
proof -
  let ?K = "length (hd b)"
  from assms have sq: "list_all (\<lambda>row. length row = length a) a"
    and ne: "a \<noteq> []" and lb: "length b = length a" and rect: "list_all (\<lambda>row. length row = ?K) b"
    and g: "gauss (length a) (zip a b) = Some x"
    by (auto simp: elimination_solve_def split: if_splits option.splits)
  have shape: "\<forall>e\<in>set (zip a b). length (fst e) = length a \<and> length (snd e) = ?K"
    using sq rect by (auto simp: list_all_iff dest: set_zip_leftD set_zip_rightD)
  from gauss_sound[OF g _ shape] lb have
    sol: "\<forall>e\<in>set (zip a b). \<forall>k<?K. dot (fst e) (col x k) = snd e ! k"
    by simp
  show ?thesis
  proof (rule nth_equalityI)
    show "length (mat_mul ?K a x) = length b" using lb by (simp add: mat_mul_def)
  next
    fix i assume "i < length (mat_mul ?K a x)"
    then have i: "i < length a" by (simp add: mat_mul_def)
    then have mem: "(a ! i, b ! i) \<in> set (zip a b)"
      using lb by (auto simp: set_zip)
    have bi: "length (b ! i) = ?K"
      using rect i lb by (simp add: list_all_length)
    have "lincomb ?K (a ! i) x = b ! i"
    proof (rule nth_equalityI)
      show "length (lincomb ?K (a ! i) x) = length (b ! i)" using bi by simp
    next
      fix k assume "k < length (lincomb ?K (a ! i) x)"
      then have k: "k < ?K" by simp
      with sol mem have "dot (a ! i) (col x k) = b ! i ! k" by fastforce
      with k show "lincomb ?K (a ! i) x ! k = b ! i ! k" by (simp add: nth_lincomb)
    qed
    with i show "mat_mul ?K a x ! i = b ! i" by (simp add: mat_mul_def)
  qed
qed

lemma exact_solve_sound:
  assumes "exact_solve a (Population p) = Inr x"
  shows "\<exists>y. x = Population y \<and> mat_mul (length (hd p)) a y = p"
proof -
  from assms obtain y where "elimination_solve a p = Inr y" and "x = Population y"
    by (cases "elimination_solve a p") (auto simp: exact_solve_def)
  with elimination_solve_sound[of a p y] show ?thesis by simp
qed

lemma example_run:
  "process_data example_helpers example_manager [] () =
   Some (example_manager\<lparr>measurement := Some [(''R0'',
       [''Heterodyned_readout'' \<mapsto> IQ [[1], [1]],
        ''Heterodyned_heralding'' \<mapsto> IQ [[1], [1]],
        ''IQrotated_readout'' \<mapsto> IQ [[1], [1]],
        ''GMMpredicted_readout'' \<mapsto> Labels \<lparr>n_cols = 1, rows = [[0], [0]]\<rparr>,
        ''PopulationNormalized_readout'' \<mapsto> Population [[1], [0]],
        ''PopulationCorrected_readout'' \<mapsto> Population [[8 / 7], [- 2 / 7]],
        ''to_fit'' \<mapsto> Population [[8 / 7], [- 2 / 7]]])]\<rparr>, None)"
  by (simp add: process_data_def classification_routine_def run_items_def example_manager_def
      example_batch_def classification_body_def assign_def finish_def rotated_def predicted_def
      corrected_def getitem_def bind_err_def config_getitem_def example_helpers_def
      example_channel_def exact_solve_def elimination_solve_def eliminate_def
      back_substitute_def vsub_def smul_def lincomb_def dot_def col_def)

text \<open>
  Claim C3, as the code has it. In the classification routine, every resonator whose
  statements run without an exception, after the resonators before it have done so, holds
  under \<open>PopulationCorrected_readout\<close> and under \<open>to_fit\<close> the value \<open>x\<close> that
  \<open>np.linalg.solve(corr_matrix, PopulationNormalized_readout)\<close> returned, whatever happens
  to the resonators after it: the solver is called with \<open>corr_matrix\<close> as it is stored, not
  transposed, with the stored normalized population, and its result is stored as it is.
\<close>

theorem classification_solves_untransposed:
  assumes "\<not> customized s" and "\<not> heralding s" and "classification s"
    and "measurement s = Some (pre @ (r, d) # post)"
    and "for_items (classification_body h s) pre = (pre', None)"
    and "classification_body h s r d = (d', None)"
  shows "\<exists>post' res c obs x.
           process_data h s measurement_arg fitmodel
             = Some (s\<lparr>measurement := Some (pre' @ (r, d') # post')\<rparr>, res)
           \<and> config_getitem s r = Inr c
           \<and> d' ''PopulationNormalized_readout'' = Some obs
           \<and> np_linalg_solve h (corr_matrix c) obs = Inr x
           \<and> d' ''PopulationCorrected_readout'' = Some x
           \<and> d' ''to_fit'' = Some x"
proof -
  obtain post' res where rest: "for_items (classification_body h s) post = (post', res)"
    by (cases "for_items (classification_body h s) post")
  have "for_items (classification_body h s) ((r, d) # post) = ((r, d') # post', res)"
    by (simp add: assms(6) rest)
  with for_items_append[OF assms(5), of "(r, d) # post"]
  have "for_items (classification_body h s) (pre @ (r, d) # post)
          = (pre' @ (r, d') # post', res)"
    by simp
  then have run: "process_data h s measurement_arg fitmodel
          = Some (s\<lparr>measurement := Some (pre' @ (r, d') # post')\<rparr>, res)"
    using assms(1-4) by (simp add: process_data_def classification_routine_def run_items_def)
  from classification_body_success[OF assms(6)] obtain c obs x where
    "config_getitem s r = Inr c" "d' ''PopulationNormalized_readout'' = Some obs"
    "np_linalg_solve h (corr_matrix c) obs = Inr x"
    "d' ''PopulationCorrected_readout'' = Some x" "d' ''to_fit'' = Some x"
    by blast
  with run show ?thesis by blast
qed

lemma two_channel_first_body:
  "classification_body example_helpers two_channel_manager ''R0''
     [''Heterodyned_readout'' \<mapsto> IQ [[1], [1]]]
   = ([''Heterodyned_readout'' \<mapsto> IQ [[1], [1]],
       ''IQrotated_readout'' \<mapsto> IQ [[1], [1]],
       ''GMMpredicted_readout'' \<mapsto> Labels \<lparr>n_cols = 1, rows = [[0], [0]]\<rparr>,
       ''PopulationNormalized_readout'' \<mapsto> Population [[1], [0]],
       ''PopulationCorrected_readout'' \<mapsto> Population [[8 / 7], [- 2 / 7]],
       ''to_fit'' \<mapsto> Population [[8 / 7], [- 2 / 7]]], None)"
  by (simp add: two_channel_manager_def example_manager_def
      classification_body_def assign_def finish_def rotated_def predicted_def
      corrected_def getitem_def bind_err_def config_getitem_def example_helpers_def
      example_channel_def exact_solve_def elimination_solve_def eliminate_def
      back_substitute_def vsub_def smul_def lincomb_def dot_def col_def)

lemma two_channel_second_body:
  "snd (classification_body example_helpers two_channel_manager ''R1''
     [''Heterodyned_readout'' \<mapsto> IQ [[1], [1]]]) = Some LinAlgError"
  by (simp add: two_channel_manager_def example_manager_def
      classification_body_def assign_def finish_def rotated_def predicted_def
      corrected_def getitem_def bind_err_def config_getitem_def example_helpers_def
      example_channel_def exact_solve_def elimination_solve_def eliminate_def
      vsub_def smul_def)

theorem classification_solves_untransposed_witness:
  "\<not> customized two_channel_manager \<and> \<not> heralding two_channel_manager
   \<and> classification two_channel_manager
   \<and> measurement two_channel_manager
       = Some ([] @ (''R0'', [''Heterodyned_readout'' \<mapsto> IQ [[1], [1]]])
                 # [(''R1'', [''Heterodyned_readout'' \<mapsto> IQ [[1], [1]]])])
   \<and> snd (the (process_data example_helpers two_channel_manager [] ())) = Some LinAlgError
   \<and> (\<exists>d' post' res c.
         process_data example_helpers two_channel_manager [] ()
           = Some (two_channel_manager\<lparr>measurement := Some ([] @ (''R0'', d') # post')\<rparr>, res)
         \<and> config_getitem two_channel_manager ''R0'' = Inr c
         \<and> d' ''PopulationNormalized_readout'' = Some (Population [[1], [0]])
         \<and> np_linalg_solve example_helpers (corr_matrix c) (Population [[1], [0]])
             = Inr (Population [[8 / 7], [- 2 / 7]])
         \<and> d' ''PopulationCorrected_readout'' = Some (Population [[8 / 7], [- 2 / 7]])
         \<and> d' ''to_fit'' = Some (Population [[8 / 7], [- 2 / 7]]))"
proof -
  let ?d = "[''Heterodyned_readout'' \<mapsto> IQ [[1], [1]]]"
  let ?d' = "[''Heterodyned_readout'' \<mapsto> IQ [[1], [1]],
       ''IQrotated_readout'' \<mapsto> IQ [[1], [1]],
       ''GMMpredicted_readout'' \<mapsto> Labels \<lparr>n_cols = 1, rows = [[0], [0]]\<rparr>,
       ''PopulationNormalized_readout'' \<mapsto> Population [[1], [0]],
       ''PopulationCorrected_readout'' \<mapsto> Population [[8 / 7], [- 2 / 7]],
       ''to_fit'' \<mapsto> Population [[8 / 7], [- 2 / 7]]]"
  have flags: "\<not> customized two_channel_manager" "\<not> heralding two_channel_manager"
    "classification two_channel_manager"
    by (simp_all add: two_channel_manager_def example_manager_def)
  have meas: "measurement two_channel_manager = Some ([] @ (''R0'', ?d) # [(''R1'', ?d)])"
    by (simp add: two_channel_manager_def)
  have pre: "for_items (classification_body example_helpers two_channel_manager) [] = ([], None)"
    by simp
  from classification_solves_untransposed[OF flags meas pre two_channel_first_body, of "[]" "()"]
  obtain post' res c obs x where
    r: "process_data example_helpers two_channel_manager [] ()
          = Some (two_channel_manager\<lparr>measurement := Some ([] @ (''R0'', ?d') # post')\<rparr>, res)"
      "config_getitem two_channel_manager ''R0'' = Inr c"
      "?d' ''PopulationNormalized_readout'' = Some obs"
      "np_linalg_solve example_helpers (corr_matrix c) obs = Inr x"
      "?d' ''PopulationCorrected_readout'' = Some x"
    by blast
  from r(3) have obs: "obs = Population [[1], [0]]" by simp
  from r(5) have x: "x = Population [[8 / 7], [- 2 / 7]]" by simp
  obtain d1 where second:
    "classification_body example_helpers two_channel_manager ''R1'' ?d = (d1, Some LinAlgError)"
    using two_channel_second_body
    by (cases "classification_body example_helpers two_channel_manager ''R1'' ?d") simp
  have "for_items (classification_body example_helpers two_channel_manager)
          ((''R0'', ?d) # [(''R1'', ?d)])
        = ((''R0'', ?d') # [(''R1'', d1)], Some LinAlgError)"
    by (simp add: two_channel_first_body second)
  then have err: "snd (the (process_data example_helpers two_channel_manager [] ())) = Some LinAlgError"
    using flags meas by (simp add: process_data_def classification_routine_def run_items_def)
  show ?thesis
    using flags meas err r(1,2,4) obs x
    by (intro conjI exI[of _ ?d'] exI[of _ post'] exI[of _ res] exI[of _ c]) simp_all
qed

text \<open>
  Claim C3, as stated, fails. With the confusion matrix of \<open>example_channel\<close> and the
  observed population \<open>(1, 0)\<close> the stored result is \<open>(8/7, -2/7)\<close>; it solves the system
  of \<open>corr_matrix\<close> and not the system of its transpose.
\<close>

theorem stored_result_not_transposed_solution:
  "stored (process_data example_helpers example_manager [] ()) ''R0'' ''PopulationNormalized_readout''
     = Some (Population [[1], [0]])
   \<and> stored (process_data example_helpers example_manager [] ()) ''R0'' ''PopulationCorrected_readout''
     = Some (Population [[8 / 7], [- 2 / 7]])
   \<and> mat_mul 1 (transpose (corr_matrix example_channel)) [[8 / 7], [- 2 / 7]] \<noteq> [[1], [0]]
   \<and> mat_mul 1 (corr_matrix example_channel) [[8 / 7], [- 2 / 7]] = [[1], [0]]"
  by (simp add: example_run stored_def example_channel_def mat_mul_def lincomb_def dot_def col_def)

text \<open>
  Claim C7. In the classification routine, when \<open>np.linalg.solve\<close> raises for a resonator
  (as it does with \<open>LinAlgError\<close> for the all-ones matrix), \<open>process_data\<close> ends with that
  exception:
  the resonator has received its rotated, predicted and normalized arrays, but
  \<open>PopulationCorrected_readout\<close> and \<open>to_fit\<close> are as before the call, and the resonators
  after it are untouched.
\<close>

theorem singular_solve_aborts:
  assumes "\<not> customized s" and "\<not> heralding s" and "classification s"
    and "measurement s = Some (pre @ (r, d) # post)"
    and "for_items (classification_body h s) pre = (pre', None)"
    and "config_getitem s r = Inr c"
    and "rotated h s r ''Heterodyned_readout'' d = Inr v1"
    and "predicted h s r ''IQrotated_readout'' (d(''IQrotated_readout'' \<mapsto> v1)) = Inr v2"
    and "normalize_population h v2 (n_readout_levels c) None = Inr obs"
    and "np_linalg_solve h (corr_matrix c) obs = Inl e"
  shows "\<exists>d'. process_data h s measurement_arg fitmodel
                 = Some (s\<lparr>measurement := Some (pre' @ (r, d') # post)\<rparr>, Some e)
           \<and> d' = d(''IQrotated_readout'' \<mapsto> v1, ''GMMpredicted_readout'' \<mapsto> v2,
                    ''PopulationNormalized_readout'' \<mapsto> obs)
           \<and> d' ''PopulationCorrected_readout'' = d ''PopulationCorrected_readout''
           \<and> d' ''to_fit'' = d ''to_fit''"
proof -
  let ?d' = "d(''IQrotated_readout'' \<mapsto> v1, ''GMMpredicted_readout'' \<mapsto> v2,
               ''PopulationNormalized_readout'' \<mapsto> obs)"
  have body: "classification_body h s r d = (?d', Some e)"
    using assms(6-10)
    by (simp add: classification_body_def assign_def corrected_def getitem_def bind_err_def)
  have "for_items (classification_body h s) ((r, d) # post) = ((r, ?d') # post, Some e)"
    by (simp add: body)
  with for_items_append[OF assms(5), of "(r, d) # post"]
  have "for_items (classification_body h s) (pre @ (r, d) # post)
          = (pre' @ (r, ?d') # post, Some e)"
    by simp
  then have "process_data h s measurement_arg fitmodel
          = Some (s\<lparr>measurement := Some (pre' @ (r, ?d') # post)\<rparr>, Some e)"
    using assms(1-4) by (simp add: process_data_def classification_routine_def run_items_def)
  then show ?thesis by simp
qed

theorem singular_solve_aborts_witness:
  "np_linalg_solve example_helpers (corr_matrix (example_channel\<lparr>corr_matrix := [[1, 1], [1, 1]]\<rparr>))
       (Population [[1], [0]]) = Inl LinAlgError
   \<and> (\<exists>d'. process_data example_helpers singular_manager [] ()
              = Some (singular_manager\<lparr>measurement := Some [(''R0'', d')]\<rparr>, Some LinAlgError)
         \<and> d' ''PopulationNormalized_readout'' = Some (Population [[1], [0]])
         \<and> d' ''PopulationCorrected_readout'' = None
         \<and> d' ''to_fit'' = None)"
proof -
  let ?c = "example_channel\<lparr>corr_matrix := [[1, 1], [1, 1]]\<rparr>"
  let ?d = "[''Heterodyned_readout'' \<mapsto> IQ [[1], [1]],
             ''Heterodyned_heralding'' \<mapsto> IQ [[1], [1]]]"
  let ?v2 = "Labels \<lparr>n_cols = 1, rows = [[0], [0]]\<rparr>"
  have flags: "\<not> customized singular_manager" "\<not> heralding singular_manager"
    "classification singular_manager"
    by (simp_all add: singular_manager_def example_manager_def)
  have meas: "measurement singular_manager = Some ([] @ (''R0'', ?d) # [])"
    by (simp add: singular_manager_def example_manager_def example_batch_def)
  have pre: "for_items (classification_body example_helpers singular_manager) [] = ([], None)"
    by simp
  have cfg: "config_getitem singular_manager ''R0'' = Inr ?c"
    by (simp add: config_getitem_def singular_manager_def)
  have rot: "rotated example_helpers singular_manager ''R0'' ''Heterodyned_readout'' ?d
               = Inr (IQ [[1], [1]])"
    by (simp add: rotated_def getitem_def bind_err_def cfg example_helpers_def)
  have pred: "predicted example_helpers singular_manager ''R0'' ''IQrotated_readout''
                (?d(''IQrotated_readout'' \<mapsto> IQ [[1], [1]])) = Inr ?v2"
    by (simp add: predicted_def getitem_def bind_err_def cfg example_helpers_def)
  have norm: "normalize_population example_helpers ?v2 (n_readout_levels ?c) None
                = Inr (Population [[1], [0]])"
    by (simp add: example_helpers_def)
  have sing: "np_linalg_solve example_helpers (corr_matrix ?c) (Population [[1], [0]])
                = Inl LinAlgError"
    by (simp add: example_helpers_def exact_solve_def elimination_solve_def eliminate_def
        vsub_def smul_def)
  from singular_solve_aborts[OF flags meas pre cfg rot pred norm sing, of "[]" "()"] sing
  show ?thesis by auto
qed


section \<open>Properties of \<open>check_IQ_matrices\<close>\<close>

lemma map_of_dict_set: "map_of (dict_set k v d) = (map_of d)(k \<mapsto> v)"
  by (induction d) (auto simp: fun_eq_iff)

lemma keys_dict_set: "fst ` set (dict_set k v d) = insert k (fst ` set d)"
proof -
  have "fst ` set (dict_set k v d) = dom (map_of (dict_set k v d))"
    by (simp add: dom_map_of_conv_image_fst)
  also have "\<dots> = insert k (dom (map_of d))" by (simp add: map_of_dict_set)
  also have "\<dots> = insert k (fst ` set d)" by (simp add: dom_map_of_conv_image_fst)
  finally show ?thesis .
qed

lemma dict_set_twice: "dict_set k v (dict_set k w d) = dict_set k v d"
  by (induction d) auto

lemma shapes_agree_checked: "shapes_agree (checked c)"
  by (simp add: checked_def shapes_agree_def np_identity_def)

lemma checked_idem: "checked (checked c) = checked c"
proof -
  have "readout_levels (checked c) = readout_levels c" by (simp add: checked_def)
  moreover have "n_readout_levels (checked c) = length (readout_levels c)"
    by (simp add: checked_def)
  ultimately have "(checked c)\<lparr>n_readout_levels := length (readout_levels (checked c))\<rparr> = checked c"
    by simp
  then show ?thesis
    using shapes_agree_checked[of c] by (subst checked_def) simp
qed

lemma check_channel_eq:
  assumes "map_of (config_dict s) r = Some c"
  shows "check_channel r s
           = Inr (s\<lparr>config_dict := dict_set r (checked c) (config_dict s),
                    stdout := stdout s @ (if shapes_agree c then [] else [shape_warning r])\<rparr>)"
  using assms
  by (simp add: check_channel_def config_getitem_def bind_err_def config_set_def Let_def
      checked_def shapes_agree_def dict_set_twice map_replicate_const)

lemma check_loop_spec:
  assumes "set rs \<subseteq> fst ` set (config_dict s)"
  shows "\<exists>s'. check_loop rs s = Inr s' \<and> yaml_file s' = yaml_file s
           \<and> (\<forall>r. map_of (config_dict s') r
                  = (if r \<in> set rs then map_option checked (map_of (config_dict s) r)
                     else map_of (config_dict s) r))
           \<and> set (stdout s) \<subseteq> set (stdout s')
           \<and> (\<forall>r\<in>set rs. \<forall>c. map_of (config_dict s) r = Some c \<and> \<not> shapes_agree c
                  \<longrightarrow> shape_warning r \<in> set (stdout s'))"
  using assms
proof (induction rs arbitrary: s)
  case Nil
  then show ?case by simp
next
  case (Cons r0 rs)
  from Cons.prems obtain c0 where c0: "map_of (config_dict s) r0 = Some c0"
    by (metis list.set_intros(1) subsetD weak_map_of_SomeI imageE prod.collapse
        map_of_eq_None_iff not_None_eq)
  define s1 where "s1 = s\<lparr>config_dict := dict_set r0 (checked c0) (config_dict s),
      stdout := stdout s @ (if shapes_agree c0 then [] else [shape_warning r0])\<rparr>"
  have step: "check_channel r0 s = Inr s1"
    unfolding s1_def by (rule check_channel_eq[OF c0])
  have m1: "map_of (config_dict s1) = (map_of (config_dict s))(r0 \<mapsto> checked c0)"
    by (simp add: s1_def map_of_dict_set)
  have "set rs \<subseteq> fst ` set (config_dict s1)"
    using Cons.prems by (auto simp: s1_def keys_dict_set)
  from Cons.IH[OF this] obtain s' where
    s': "check_loop rs s1 = Inr s'" "yaml_file s' = yaml_file s1"
      "\<forall>r. map_of (config_dict s') r
            = (if r \<in> set rs then map_option checked (map_of (config_dict s1) r)
               else map_of (config_dict s1) r)"
      "set (stdout s1) \<subseteq> set (stdout s')"
      "\<forall>r\<in>set rs. \<forall>c. map_of (config_dict s1) r = Some c \<and> \<not> shapes_agree c
            \<longrightarrow> shape_warning r \<in> set (stdout s')"
    by blast
  have "check_loop (r0 # rs) s = Inr s'"
    by (simp add: step bind_err_def s'(1))
  moreover have "yaml_file s' = yaml_file s" using s'(2) by (simp add: s1_def)
  moreover have "map_of (config_dict s') r
        = (if r \<in> set (r0 # rs) then map_option checked (map_of (config_dict s) r)
           else map_of (config_dict s) r)" for r
    using s'(3) c0 by (auto simp: m1 checked_idem)
  moreover have "set (stdout s) \<subseteq> set (stdout s')"
    using s'(4) by (auto simp: s1_def)
  moreover have "shape_warning r \<in> set (stdout s')"
    if "r \<in> set (r0 # rs)" and "map_of (config_dict s) r = Some c" and "\<not> shapes_agree c" for r c
  proof (cases "r = r0")
    case True
    with that c0 have "shape_warning r \<in> set (stdout s1)" by (simp add: s1_def)
    with s'(4) show ?thesis by auto
  next
    case False
    with that have "r \<in> set rs" "map_of (config_dict s1) r = Some c" by (simp_all add: m1)
    with s'(5) that(3) show ?thesis by blast
  qed
  ultimately show ?case by blast
qed

lemma ProcessManager_load_returns: "\<exists>s'. ProcessManager_load s = Inr s'"
proof -
  let ?s = "s\<lparr>resonators := filter (\<lambda>key. startswith key ''R'') (map fst (config_dict s))\<rparr>"
  have "set (resonators ?s) \<subseteq> fst ` set (config_dict ?s)" by auto
  from check_loop_spec[OF this] show ?thesis
    by (auto simp: ProcessManager_load_def check_IQ_matrices_def)
qed

text \<open>
  Claim C6. When every listed resonator has a configuration entry, \<open>check_IQ_matrices\<close>
  does not raise and does not touch the persisted configuration. A resonator whose
  number of readout levels differs from the lengths of its matrices gets the identity
  matrix, unit covariances and the means \<open>[i, i]\<close>, and a warning is printed for it; a
  resonator whose lengths agree keeps its matrices. In both cases \<open>n_readout_levels\<close> is
  the number of readout levels and the four lengths agree afterwards.
\<close>

theorem check_IQ_matrices_regenerates:
  assumes "set (resonators s) \<subseteq> fst ` set (config_dict s)"
    and "r \<in> set (resonators s)" and "map_of (config_dict s) r = Some c"
  shows "\<exists>s' c'. check_IQ_matrices s = Inr s' \<and> yaml_file s' = yaml_file s
           \<and> map_of (config_dict s') r = Some c'
           \<and> (if length (readout_levels c) = length (IQ_means c)
                  \<and> length (IQ_means c) = length (IQ_covariances c)
                  \<and> length (IQ_covariances c) = length (corr_matrix c)
               then c' = c\<lparr>n_readout_levels := length (readout_levels c)\<rparr>
               else c' = c\<lparr>n_readout_levels := length (readout_levels c),
                           corr_matrix := np_identity (length (readout_levels c)),
                           IQ_covariances := replicate (length (readout_levels c)) 1,
                           IQ_means := map (\<lambda>i. [of_nat i, of_nat i])
                                         [0..<length (readout_levels c)]\<rparr>
                    \<and> shape_warning r \<in> set (stdout s'))
           \<and> n_readout_levels c' = length (readout_levels c')
           \<and> n_readout_levels c' = length (IQ_means c')
           \<and> length (IQ_means c') = length (IQ_covariances c')
           \<and> length (IQ_covariances c') = length (corr_matrix c')"
proof -
  from check_loop_spec[OF assms(1)] obtain s' where
    s': "check_loop (resonators s) s = Inr s'" "yaml_file s' = yaml_file s"
      "\<forall>r. map_of (config_dict s') r
            = (if r \<in> set (resonators s) then map_option checked (map_of (config_dict s) r)
               else map_of (config_dict s) r)"
      "\<forall>r\<in>set (resonators s). \<forall>c. map_of (config_dict s) r = Some c \<and> \<not> shapes_agree c
            \<longrightarrow> shape_warning r \<in> set (stdout s')"
    by blast
  have c': "map_of (config_dict s') r = Some (checked c)"
    using s'(3) assms(2,3) by simp
  have warn: "\<not> shapes_agree c \<Longrightarrow> shape_warning r \<in> set (stdout s')"
    using s'(4) assms(2,3) by blast
  have inv: "n_readout_levels (checked c) = length (readout_levels (checked c))"
    "n_readout_levels (checked c) = length (IQ_means (checked c))"
    "length (IQ_means (checked c)) = length (IQ_covariances (checked c))"
    "length (IQ_covariances (checked c)) = length (corr_matrix (checked c))"
    by (simp_all add: checked_def shapes_agree_def np_identity_def)
  show ?thesis
  proof (intro exI[of _ s'] exI[of _ "checked c"] conjI)
    show "check_IQ_matrices s = Inr s'" by (simp add: check_IQ_matrices_def s'(1))
    show "if length (readout_levels c) = length (IQ_means c)
                  \<and> length (IQ_means c) = length (IQ_covariances c)
                  \<and> length (IQ_covariances c) = length (corr_matrix c)
               then checked c = c\<lparr>n_readout_levels := length (readout_levels c)\<rparr>
               else checked c = c\<lparr>n_readout_levels := length (readout_levels c),
                           corr_matrix := np_identity (length (readout_levels c)),
                           IQ_covariances := replicate (length (readout_levels c)) 1,
                           IQ_means := map (\<lambda>i. [of_nat i, of_nat i])
                                         [0..<length (readout_levels c)]\<rparr>
                    \<and> shape_warning r \<in> set (stdout s')"
      using warn by (auto simp: checked_def shapes_agree_def)
  qed (use s'(2) c' inv in simp_all)
qed

theorem check_IQ_matrices_regenerates_witness:
  "set (resonators mismatched_manager) \<subseteq> fst ` set (config_dict mismatched_manager)
   \<and> ''R1'' \<in> set (resonators mismatched_manager)
   \<and> map_of (config_dict mismatched_manager) ''R1''
       = Some (example_channel\<lparr>readout_levels := [0, 1, 2]\<rparr>)
   \<and> (\<exists>s' c'. check_IQ_matrices mismatched_manager = Inr s'
         \<and> yaml_file s' = yaml_file mismatched_manager
         \<and> map_of (config_dict s') ''R1'' = Some c'
         \<and> corr_matrix c' = [[1, 0, 0], [0, 1, 0], [0, 0, 1]]
         \<and> IQ_covariances c' = [1, 1, 1]
         \<and> IQ_means c' = [[0, 0], [1, 1], [2, 2]]
         \<and> n_readout_levels c' = 3
         \<and> shape_warning ''R1'' \<in> set (stdout s'))"
proof -
  let ?c = "example_channel\<lparr>readout_levels := [0, 1, 2]\<rparr>"
  have h: "set (resonators mismatched_manager) \<subseteq> fst ` set (config_dict mismatched_manager)"
    "''R1'' \<in> set (resonators mismatched_manager)"
    "map_of (config_dict mismatched_manager) ''R1'' = Some ?c"
    by (simp_all add: mismatched_manager_def)
  have differ: "\<not> (length (readout_levels ?c) = length (IQ_means ?c)
      \<and> length (IQ_means ?c) = length (IQ_covariances ?c)
      \<and> length (IQ_covariances ?c) = length (corr_matrix ?c))"
    by (simp add: example_channel_def)
  have three: "length (readout_levels ?c) = 3" by simp
  have upt3: "[0..<3] = [0, 1, 2]" by (simp add: upt_rec)
  from check_IQ_matrices_regenerates[OF h] differ obtain s' c' where
    r: "check_IQ_matrices mismatched_manager = Inr s'"
      "yaml_file s' = yaml_file mismatched_manager"
      "map_of (config_dict s') ''R1'' = Some c'"
      "c' = ?c\<lparr>n_readout_levels := length (readout_levels ?c),
               corr_matrix := np_identity (length (readout_levels ?c)),
               IQ_covariances := replicate (length (readout_levels ?c)) 1,
               IQ_means := map (\<lambda>i. [of_nat i, of_nat i]) [0..<length (readout_levels ?c)]\<rparr>"
      "shape_warning ''R1'' \<in> set (stdout s')"
    by auto
  have "corr_matrix c' = [[1, 0, 0], [0, 1, 0], [0, 0, 1]]"
    "IQ_covariances c' = [1, 1, 1]" "IQ_means c' = [[0, 0], [1, 1], [2, 2]]"
    "n_readout_levels c' = 3"
    unfolding r(4) three by (simp_all add: np_identity_def upt3 numeral_3_eq_3)
  with r h show ?thesis by blast
qed


section \<open>Properties of \<open>VariableManager.load\<close>\<close>

lemma set_resonator_sets:
  assumes "set_resonator r s = Inr s'"
  shows "levels_set s' r" and "resonator_names s' = resonator_names s"
    and "r' \<noteq> r \<Longrightarrow> get_resonator s' r' = get_resonator s r'"
  using assms
  by (auto simp: set_resonator_def levels_set_def get_resonator_def set_entry_def bind_err_def
      Let_def map_of_dict_set split: sum.splits if_splits option.splits entry.splits)

lemma set_resonator_keeps:
  assumes "set_resonator r s = Inr s'" and "levels_set s r'"
  shows "levels_set s' r'"
proof (cases "r' = r")
  case True
  with set_resonator_sets(1)[OF assms(1)] show ?thesis by simp
next
  case False
  from set_resonator_sets(3)[OF assms(1) False] assms(2) show ?thesis
    by (simp add: levels_set_def)
qed

lemma resonator_loop_sets:
  assumes "resonator_loop rs s = Inr s'"
  shows "resonator_names s' = resonator_names s
       \<and> (\<forall>r. r \<in> set rs \<or> levels_set s r \<longrightarrow> levels_set s' r)"
  using assms
proof (induction rs arbitrary: s)
  case Nil
  then show ?case by simp
next
  case (Cons r0 rs)
  from Cons.prems obtain s1 where
    step: "set_resonator r0 s = Inr s1" and loop: "resonator_loop rs s1 = Inr s'"
    by (auto simp: bind_err_def split: sum.splits)
  from Cons.IH[OF loop] have
    ih: "resonator_names s' = resonator_names s1"
      "\<forall>r. r \<in> set rs \<or> levels_set s1 r \<longrightarrow> levels_set s' r"
    by auto
  have "levels_set s' r" if "r \<in> set (r0 # rs) \<or> levels_set s r" for r
  proof -
    from that have "r \<in> set rs \<or> levels_set s1 r"
      using set_resonator_sets(1)[OF step] set_resonator_keeps[OF step] by auto
    with ih(2) show ?thesis by blast
  qed
  with ih(1) set_resonator_sets(2)[OF step] show ?case by simp
qed

lemma set_subspace_names [simp]:
  "resonator_names (set_subspace q c key sp s) = resonator_names s"
  by (simp add: set_subspace_def set_entry_def)

lemma subspace_loop_names:
  "subspace_loop q keys s = Inr s' \<Longrightarrow> resonator_names s' = resonator_names s"
proof (induction keys arbitrary: s)
  case Nil
  then show ?case by simp
next
  case (Cons key keys)
  show ?case
  proof (cases "isdecimal key")
    case False
    with Cons show ?thesis by simp
  next
    case True
    with Cons.prems obtain s1 where
      s1: "set_mod_freq q key s = Inr s1"
      and rest: "(if key = ''01'' then subspace_loop q keys s1
                  else bind_err (set_anharmonicity q key s1) (subspace_loop q keys)) = Inr s'"
      by (auto simp: bind_err_def split: sum.splits)
    have n1: "resonator_names s1 = resonator_names s"
      using s1 by (auto simp: set_mod_freq_def bind_err_def split: sum.splits)
    show ?thesis
    proof (cases "key = ''01''")
      case True
      with rest Cons.IH[of s1] n1 show ?thesis by simp
    next
      case False
      with rest obtain s2 where
        s2: "set_anharmonicity q key s1 = Inr s2" and l: "subspace_loop q keys s2 = Inr s'"
        by (auto simp: bind_err_def split: sum.splits)
      have "resonator_names s2 = resonator_names s1"
        using s2 by (auto simp: set_anharmonicity_def bind_err_def split: sum.splits)
      with Cons.IH[OF l] n1 show ?thesis by simp
    qed
  qed
qed

lemma qubit_loop_names:
  "qubit_loop qs s = Inr s' \<Longrightarrow> resonator_names s' = resonator_names s"
proof (induction qs arbitrary: s)
  case Nil
  then show ?case by simp
next
  case (Cons q qs)
  from Cons.prems obtain c :: qubit and s1 where
    "subspace_loop q (map fst (qubit_items c)) s = Inr s1" and "qubit_loop qs s1 = Inr s'"
    by (auto simp: bind_err_def split: sum.splits)
  with Cons.IH[of s1] subspace_loop_names[of q _ s s1] show ?case by simp
qed

text \<open>
  Claim C10. When \<open>load\<close> completes, every top-level key that starts with \<open>R\<close> is a listed
  resonator; its \<open>readout_levels\<close> are sorted in ascending order and not empty,
  \<open>lowest_readout_levels\<close> is their first element, \<open>highest_readout_levels\<close> their last,
  and \<open>n_readout_levels\<close> their number.
\<close>

theorem load_sets_readout_levels:
  assumes "VariableManager_load s = Inr s'"
    and "r \<in> set (map fst (variables s))" and "startswith r ''R''"
  shows "r \<in> set (resonator_names s')
       \<and> (\<exists>c. get_resonator s' r = Inr c
           \<and> sorted (resonator_readout_levels c)
           \<and> resonator_readout_levels c \<noteq> []
           \<and> lowest_readout_levels c = Some (hd (resonator_readout_levels c))
           \<and> highest_readout_levels c = Some (last (resonator_readout_levels c))
           \<and> resonator_n_readout_levels c = Some (length (resonator_readout_levels c)))"
proof -
  define s0 where "s0 = s\<lparr>qubits := filter (\<lambda>key. startswith key ''Q'') (map fst (variables s)),
      resonator_names := filter (\<lambda>key. startswith key ''R'') (map fst (variables s))\<rparr>"
  from assms(1) have sp: "set_parameters s0 = Inr s'"
    by (auto simp: VariableManager_load_def Let_def s0_def bind_err_def split: sum.splits)
  then obtain s1 where q: "qubit_loop (qubits s0) s0 = Inr s1"
    and l: "resonator_loop (resonator_names s1) s1 = Inr s'"
    by (auto simp: set_parameters_def bind_err_def split: sum.splits)
  have "resonator_names s1 = resonator_names s0" by (rule qubit_loop_names[OF q])
  with assms(2,3) have in1: "r \<in> set (resonator_names s1)" by (simp add: s0_def)
  from resonator_loop_sets[OF l] in1 have "resonator_names s' = resonator_names s1"
    and "levels_set s' r" by simp_all
  with in1 show ?thesis by (simp add: levels_set_def)
qed

theorem load_sets_readout_levels_witness:
  "VariableManager_load example_variables = Inr loaded_variables
   \<and> ''R0'' \<in> set (map fst (variables example_variables)) \<and> startswith ''R0'' ''R''
   \<and> ''R0'' \<in> set (resonator_names loaded_variables)
   \<and> (\<exists>c. get_resonator loaded_variables ''R0'' = Inr c
         \<and> sorted (resonator_readout_levels c)
         \<and> resonator_readout_levels c \<noteq> []
         \<and> lowest_readout_levels c = Some (hd (resonator_readout_levels c))
         \<and> highest_readout_levels c = Some (last (resonator_readout_levels c))
         \<and> resonator_n_readout_levels c = Some (length (resonator_readout_levels c)))"
proof -
  have h: "VariableManager_load example_variables = Inr loaded_variables"
    by code_simp
  have k: "''R0'' \<in> set (map fst (variables example_variables))" "startswith ''R0'' ''R''"
    by (simp_all add: example_variables_def startswith_def)
  from load_sets_readout_levels[OF h k] h k show ?thesis by blast
qed

end
